theory Spec2Isabelle
  imports Main "HOL-Library.AList"
begin

section \<open>CumulusCI task lifecycle (cumulusci/core/tasks.py)\<close>

text \<open>
  A shallow embedding of \<^verbatim>\<open>BaseTask\<close> and \<^verbatim>\<open>BaseSalesforceTask\<close>.
  Python values that the code inspects are values of \<open>pyval\<close>; a \<^verbatim>\<open>dict\<close> with string
  keys is an association list in insertion order (a key is looked up with \<open>map_of\<close>, stored
  with \<open>AList.update\<close>, which keeps the position of a key already there and appends a new
  one, as Python does). Exceptions are values of \<open>exn\<close>; a function that can raise returns
  \<open>exn + 'a\<close>. Floats are not modelled: numbers are Python's unbounded integers and booleans.
  Strings are ASCII text.
\<close>

subsection \<open>Values, dictionaries, exceptions\<close>

datatype pyval =
    PNone
  | PBool bool
  | PInt int
  | PStr string
  | PList "pyval list"
  | PDict "(string \<times> pyval) list"

type_synonym pydict = "(string \<times> pyval) list"

text \<open>Python truthiness (\<^verbatim>\<open>bool(v)\<close>).\<close>

fun truthy :: "pyval \<Rightarrow> bool" where
  "truthy PNone = False"
| "truthy (PBool b) = b"
| "truthy (PInt i) = (i \<noteq> 0)"
| "truthy (PStr s) = (s \<noteq> [])"
| "truthy (PList xs) = (xs \<noteq> [])"
| "truthy (PDict d) = (d \<noteq> [])"

datatype exn =
    TaskOptionsError string
  | TaskRequiresSalesforceOrg string
  | ServiceNotValid string
  | ServiceNotConfigured string
  | KeyError string
  | TypeError
  | ValueError
  | IndexError
  | AttributeError string
  | NotImplementedError string
  | OtherError string

text \<open>\<^verbatim>\<open>d[k] = v\<close> and \<^verbatim>\<open>d.update(other)\<close> (the items of \<open>other\<close> stored in their order).\<close>

definition dict_set :: "string \<Rightarrow> pyval \<Rightarrow> pydict \<Rightarrow> pydict" where
  "dict_set k v d = AList.update k v d"

fun dict_update :: "pydict \<Rightarrow> pydict \<Rightarrow> pydict" where
  "dict_update d [] = d"
| "dict_update d ((k, v) # rest) = dict_update (dict_set k v d) rest"

text \<open>\<^verbatim>\<open>d[k]\<close>: a missing key raises \<^verbatim>\<open>KeyError\<close>.\<close>

definition dict_item :: "pydict \<Rightarrow> string \<Rightarrow> exn + pyval" where
  "dict_item d k = (case map_of d k of None \<Rightarrow> Inl (KeyError k) | Some v \<Rightarrow> Inr v)"

text \<open>\<^verbatim>\<open>sep.join(xs)\<close>.\<close>

fun join :: "string \<Rightarrow> string list \<Rightarrow> string" where
  "join sep [] = []"
| "join sep [x] = x"
| "join sep (x # y # ys) = x @ sep @ join sep (y # ys)"

subsection \<open>Option templating: \<^verbatim>\<open>PROJECT_CONFIG_RE\<close> and \<^verbatim>\<open>_init_options\<close>\<close>

text \<open>
  The project configuration is an external object. It is represented by what this module
  observes of it: whether it is truthy, for each attribute name the \<^verbatim>\<open>str()\<close> of the
  attribute's value (\<open>None\<close> when \<^verbatim>\<open>getattr\<close> finds no such attribute), and its
  \<^verbatim>\<open>repo_root\<close>.
\<close>

record project_config =
  pc_truthy :: bool
  pc_attr_str :: "string \<Rightarrow> string option"
  repo_root :: "string option"

text \<open>\<^verbatim>\<open>\w\<close> on ASCII text: a letter, a digit or the underscore.\<close>

definition is_word_char :: "char \<Rightarrow> bool" where
  "is_word_char c =
     (let n = (of_char c :: nat)
      in (97 \<le> n \<and> n \<le> 122) \<or> (65 \<le> n \<and> n \<le> 90) \<or> (48 \<le> n \<and> n \<le> 57) \<or> n = 95)"

text \<open>
  One attempt of \<^verbatim>\<open>re.compile(r"\$project_config.(\w+)")\<close> to match at the start of
  \<open>s\<close>: the literal \<^verbatim>\<open>$project_config\<close>, then \<^verbatim>\<open>.\<close> (any one character but a
  newline: the dot of the source is not escaped), then the longest non-empty run of word
  characters. The result is group 1 and the text after the match.
\<close>

definition match_at :: "string \<Rightarrow> (string \<times> string) option" where
  "match_at s =
     (if take 15 s = ''$project_config'' then
        (case drop 15 s of
           [] \<Rightarrow> None
         | d # r \<Rightarrow>
             if d = CHR 0x0A then None
             else if takeWhile is_word_char r = [] then None
             else Some (takeWhile is_word_char r, dropWhile is_word_char r))
      else None)"

lemma match_at_shorter: "match_at s = Some (g, r) \<Longrightarrow> length r < length s"
proof -
  assume m: "match_at s = Some (g, r)"
  then obtain d r0 where d: "drop 15 s = d # r0" and r: "r = dropWhile is_word_char r0"
    by (auto simp: match_at_def split: if_splits list.splits)
  have "length r \<le> length r0"
    unfolding r by (rule length_dropWhile_le)
  moreover have "length (drop 15 s) = Suc (length r0)"
    using d by simp
  ultimately show ?thesis by simp
qed

text \<open>
  \<^verbatim>\<open>PROJECT_CONFIG_RE.sub(repl, value)\<close>: the matches are found from left to right, without
  overlap; each is replaced by \<open>repl\<close> of its group 1.
\<close>

function re_sub :: "(string \<Rightarrow> string) \<Rightarrow> string \<Rightarrow> string" where
  "re_sub repl [] = []"
| "re_sub repl (c # cs) =
     (case match_at (c # cs) of
        Some (g, r) \<Rightarrow> repl g @ re_sub repl r
      | None \<Rightarrow> c # re_sub repl cs)"
  by pat_completeness auto
termination
  by (relation "measure (\<lambda>(repl, s). length s)") (auto dest: match_at_shorter)

text \<open>The replacement: \<^verbatim>\<open>str(getattr(self.project_config, match.group(1), None))\<close>.\<close>

definition project_config_repl :: "project_config \<Rightarrow> string \<Rightarrow> string" where
  "project_config_repl pc g = (case pc_attr_str pc g of None \<Rightarrow> ''None'' | Some s \<Rightarrow> s)"

record task_config =
  tc_name :: pyval
  tc_class_path :: pyval
  tc_options :: "pydict option"
  tc_checks :: pyval
  tc_config :: pydict

text \<open>
  The loop of \<^verbatim>\<open>_init_options\<close> over \<^verbatim>\<open>self.options.items()\<close>: a string value is
  substituted and stored back under its key.
\<close>

fun template_loop :: "project_config \<Rightarrow> pydict \<Rightarrow> pydict \<Rightarrow> pydict" where
  "template_loop pc [] opts = opts"
| "template_loop pc ((option, v) # rest) opts =
     template_loop pc rest
       (case v of
          PStr s \<Rightarrow> dict_set option (PStr (re_sub (project_config_repl pc) s)) opts
        | _ \<Rightarrow> opts)"

definition init_options :: "project_config \<Rightarrow> task_config \<Rightarrow> pydict \<Rightarrow> pydict" where
  "init_options pc tc kwargs =
     (let options0 = (case tc_options tc of None \<Rightarrow> [] | Some d \<Rightarrow> d);
          options1 = (if kwargs \<noteq> [] then dict_update options0 kwargs else options0)
      in template_loop pc options1 options1)"

subsection \<open>Option validation: \<^verbatim>\<open>_validate_options\<close>\<close>

text \<open>
  The class attributes of a task variant: its name, its option schema
  (\<^verbatim>\<open>task_options\<close>, name to descriptor, in declaration order) and \<^verbatim>\<open>salesforce_task\<close>.
\<close>

record task_class =
  cls_name :: string
  task_options :: "(string \<times> pydict) list"
  salesforce_task :: bool

text \<open>
  The loop over \<^verbatim>\<open>self.task_options.items()\<close> with its accumulator
  \<^verbatim>\<open>missing_required\<close>. \<^verbatim>\<open>config.get("required") is True\<close> holds of the boolean
  \<open>True\<close> only.
\<close>

fun missing_loop :: "(string \<times> pydict) list \<Rightarrow> pydict \<Rightarrow> string list \<Rightarrow> string list" where
  "missing_loop [] opts missing_required = missing_required"
| "missing_loop ((name, config) # rest) opts missing_required =
     missing_loop rest opts
       (if map_of config ''required'' = Some (PBool True) \<and> map_of opts name = None
        then missing_required @ [name]
        else missing_required)"

definition validate_options :: "task_class \<Rightarrow> pydict \<Rightarrow> exn + unit" where
  "validate_options cls opts =
     (let missing_required = missing_loop (task_options cls) opts []
      in if missing_required \<noteq> [] then
           Inl (TaskOptionsError
                 (cls_name cls @ '' requires the options ('' @ join '','' missing_required
                   @ '') and no values were provided''))
         else Inr ())"

subsection \<open>The task instance and its construction: \<^verbatim>\<open>__init__\<close>\<close>

record org_config =
  username :: string
  org_id :: string

text \<open>The parent flow is external; only its logger (here the logger's name) is read.\<close>

record flow =
  flow_logger :: string

text \<open>
  The attributes of \<^verbatim>\<open>self\<close>. \<open>ident\<close> stands for the identity of the Python object,
  \<open>cls\<close> for \<^verbatim>\<open>self.__class__\<close>, \<open>logger\<close> for the name of the logger.
\<close>

record task =
  ident :: nat
  cls :: task_class
  project_config :: project_config
  task_config :: task_config
  org_config :: "org_config option"
  logger :: "string option"
  poll_complete :: bool
  poll_count :: int
  poll_interval_level :: int
  poll_interval_s :: int
  return_values :: pydict
  result :: pyval
  flow :: "flow option"
  name :: pyval
  stepnum :: pyval
  debug_mode :: bool
  options :: pydict
  working_path :: "string option"

definition reset_poll :: "task \<Rightarrow> task" where
  "reset_poll self =
     self\<lparr>poll_complete := False, poll_count := 0, poll_interval_level := 0, poll_interval_s := 1\<rparr>"

definition init_logger :: "task \<Rightarrow> task" where
  "init_logger self =
     (case flow self of
        Some f \<Rightarrow> self\<lparr>logger := Some (flow_logger f @ ''.'' @ cls_name (cls self))\<rparr>
      | None \<Rightarrow> self\<lparr>logger := Some ''cumulusci.core.tasks''\<rparr>)"

text \<open>
  \<^verbatim>\<open>__init__\<close>. \<open>i\<close> is the identity of the new object, \<open>c\<close> its class, \<open>dbg\<close> what
  \<^verbatim>\<open>get_debug_mode()\<close> returns; the other arguments are the constructor's. An attribute that
  the constructor has not assigned yet has a placeholder value in the record.
\<close>

definition init ::
  "nat \<Rightarrow> task_class \<Rightarrow> bool \<Rightarrow> project_config \<Rightarrow> task_config \<Rightarrow> org_config option \<Rightarrow>
   flow option \<Rightarrow> pyval \<Rightarrow> pyval \<Rightarrow> string option \<Rightarrow> pydict \<Rightarrow> exn + task" where
  "init i c dbg pc tc oc fl nm sn lg kwargs =
     (let self0 = reset_poll
            \<lparr>ident = i, cls = c, project_config = pc, task_config = tc, org_config = oc,
             logger = lg, poll_complete = False, poll_count = 0, poll_interval_level = 0,
             poll_interval_s = 0, return_values = [], result = PNone, flow = None,
             name = PNone, stepnum = PNone, debug_mode = False, options = [],
             working_path = None\<rparr>;
          self1 = self0\<lparr>return_values := [], result := PNone, flow := fl, name := nm,
                        stepnum := sn, debug_mode := dbg\<rparr>;
          self2 = (if logger self1 = None then init_logger self1 else self1);
          self3 = self2\<lparr>options := init_options (project_config self2) (task_config self2) kwargs\<rparr>
      in case validate_options (cls self3) (options self3) of
           Inl e \<Rightarrow> Inl e
         | Inr _ \<Rightarrow> Inr self3)"

subsection \<open>The validator's contract, in the spec's words\<close>

text \<open>
  The names the validator must report, in the spec's words: the names of the schema, in
  declaration order, whose descriptor marks them required and that the options do not hold.
\<close>

definition required_absent :: "(string \<times> pydict) list \<Rightarrow> pydict \<Rightarrow> string list" where
  "required_absent schema opts =
     map fst (filter (\<lambda>(name, config).
        map_of config ''required'' = Some (PBool True) \<and> name \<notin> fst ` set opts) schema)"


subsection \<open>The world outside the task\<close>

text \<open>
  What the task does to its surroundings is recorded in a \<open>world\<close>: the thread-local
  \<^verbatim>\<open>CURRENT_TASK.stack\<close> (\<open>None\<close> while the attribute does not exist; the top of the stack
  is the last element), the process's working directory, and a trace of events in the order
  they happen: each \<^verbatim>\<open>time.sleep\<close>, each call of a logger method, and each invocation of
  a hook method (named by the method). A log message is kept as its format and the values
  formatted into it.
\<close>

datatype logmsg =
    Beginning_task string
  | As_user string
  | In_org string
  | Blank_line
  | Sleeping_before_retry pyval
  | Retrying_remaining pyval
  | Increased_polling_interval int

datatype event =
    Invoked string
  | Slept pyval
  | Log_info logmsg
  | Log_warning logmsg

record world =
  stack :: "nat list option"
  cwd :: string
  trace :: "event list"

type_synonym state = "task \<times> world"

text \<open>A method of the task that can raise: it returns its outcome and the state it left.\<close>

type_synonym 'a action = "state \<Rightarrow> (exn + 'a) \<times> state"

definition emit :: "event \<Rightarrow> world \<Rightarrow> world" where
  "emit ev w = w\<lparr>trace := trace w @ [ev]\<rparr>"

text \<open>The durations slept and the number of invocations of a hook, read off a trace.\<close>

definition slept :: "world \<Rightarrow> pyval list" where
  "slept w = concat (map (\<lambda>ev. case ev of Slept v \<Rightarrow> [v] | _ \<Rightarrow> []) (trace w))"

definition invocations :: "string \<Rightarrow> world \<Rightarrow> nat" where
  "invocations h w = length (filter (\<lambda>ev. ev = Invoked h) (trace w))"

subsection \<open>Numbers\<close>

text \<open>The integer a Python number stands for (\<^verbatim>\<open>True\<close> is 1, \<^verbatim>\<open>False\<close> is 0).\<close>

fun as_number :: "pyval \<Rightarrow> int option" where
  "as_number (PInt i) = Some i"
| "as_number (PBool b) = Some (if b then 1 else 0)"
| "as_number _ = None"

text \<open>\<^verbatim>\<open>a + b\<close> (as \<^verbatim>\<open>+=\<close> computes it) and \<^verbatim>\<open>a - b\<close>.\<close>

fun py_add :: "pyval \<Rightarrow> pyval \<Rightarrow> exn + pyval" where
  "py_add (PStr a) (PStr b) = Inr (PStr (a @ b))"
| "py_add (PList a) (PList b) = Inr (PList (a @ b))"
| "py_add a b =
     (case (as_number a, as_number b) of
        (Some x, Some y) \<Rightarrow> Inr (PInt (x + y))
      | _ \<Rightarrow> Inl TypeError)"

definition py_sub :: "pyval \<Rightarrow> pyval \<Rightarrow> exn + pyval" where
  "py_sub a b =
     (case (as_number a, as_number b) of
        (Some x, Some y) \<Rightarrow> Inr (PInt (x - y))
      | _ \<Rightarrow> Inl TypeError)"

text \<open>
  \<^verbatim>\<open>time.sleep(v)\<close> of the standard library: a \<^verbatim>\<open>TypeError\<close> for a value that is not a
  number, a \<^verbatim>\<open>ValueError\<close> for a negative one; otherwise the sleep happens.
\<close>

definition time_sleep :: "pyval \<Rightarrow> world \<Rightarrow> (exn + unit) \<times> world" where
  "time_sleep v w =
     (case as_number v of
        None \<Rightarrow> (Inl TypeError, w)
      | Some n \<Rightarrow> if n < 0 then (Inl ValueError, w) else (Inr (), emit (Slept v) w))"

subsection \<open>The retry loop: \<^verbatim>\<open>_retry\<close>\<close>

text \<open>
  The body of \<^verbatim>\<open>if self.options["retry_interval"]:\<close>: the warning, the sleep, and the
  increment by \<^verbatim>\<open>retry_interval_add\<close> when that is truthy.
\<close>

definition retry_sleep :: "unit action" where
  "retry_sleep s =
     (case s of (self, w) \<Rightarrow>
        (case dict_item (options self) ''retry_interval'' of
           Inl k \<Rightarrow> (Inl k, s)
         | Inr interval \<Rightarrow>
             (let w1 = emit (Log_warning (Sleeping_before_retry interval)) w
              in case time_sleep interval w1 of
                   (Inl x, w2) \<Rightarrow> (Inl x, (self, w2))
                 | (Inr _, w2) \<Rightarrow>
                     (case dict_item (options self) ''retry_interval_add'' of
                        Inl k \<Rightarrow> (Inl k, (self, w2))
                      | Inr add \<Rightarrow>
                          if truthy add then
                            (case py_add interval add of
                               Inl x \<Rightarrow> (Inl x, (self, w2))
                             | Inr v \<Rightarrow>
                                 (Inr (),
                                  (self\<lparr>options := dict_set ''retry_interval'' v (options self)\<rparr>,
                                   w2)))
                          else (Inr (), (self, w2))))))"

text \<open>\<^verbatim>\<open>self.options["retries"] -= 1\<close> and the warning that follows it.\<close>

definition retry_decrement :: "unit action" where
  "retry_decrement s =
     (case s of (self, w) \<Rightarrow>
        (case dict_item (options self) ''retries'' of
           Inl k \<Rightarrow> (Inl k, s)
         | Inr retries \<Rightarrow>
             (case py_sub retries (PInt 1) of
                Inl x \<Rightarrow> (Inl x, s)
              | Inr v \<Rightarrow>
                  (Inr (),
                   (self\<lparr>options := dict_set ''retries'' v (options self)\<rparr>,
                    emit (Log_warning (Retrying_remaining v)) w)))))"

text \<open>
  The \<^verbatim>\<open>except Exception as e\<close> block. \<open>Inl\<close> is what the block raises (the caught error
  again, or an error of its own); \<open>Inr\<close> means the loop goes round again.
  \<open>is_retry_valid\<close> is the task variant's \<^verbatim>\<open>_is_retry_valid\<close>, a predicate on the error.
\<close>

definition retry_except :: "(exn \<Rightarrow> bool) \<Rightarrow> exn \<Rightarrow> unit action" where
  "retry_except is_retry_valid e s =
     (case dict_item (options (fst s)) ''retries'' of
        Inl k \<Rightarrow> (Inl k, s)
      | Inr retries \<Rightarrow>
          if \<not> (truthy retries \<and> is_retry_valid e) then (Inl e, s)
          else
            (case dict_item (options (fst s)) ''retry_interval'' of
               Inl k \<Rightarrow> (Inl k, s)
             | Inr interval \<Rightarrow>
                 (case (if truthy interval then retry_sleep s else (Inr (), s)) of
                    (Inl x, s1) \<Rightarrow> (Inl x, s1)
                  | (Inr _, s1) \<Rightarrow> retry_decrement s1)))"

text \<open>
  \<^verbatim>\<open>_retry\<close>, for a task variant whose \<^verbatim>\<open>_try\<close> is \<open>try_hook\<close>. The loop has no bound
  of its own: \<open>None\<close> is the run that never returns.
\<close>

partial_function (option) retry ::
  "unit action \<Rightarrow> (exn \<Rightarrow> bool) \<Rightarrow> state \<Rightarrow> ((exn + unit) \<times> state) option" where
  "retry try_hook is_retry_valid s =
     (case try_hook (fst s, emit (Invoked ''_try'') (snd s)) of
        (Inr _, s1) \<Rightarrow> Some (Inr (), s1)
      | (Inl e, s1) \<Rightarrow>
          (case retry_except is_retry_valid e s1 of
             (Inl x, s2) \<Rightarrow> Some (Inl x, s2)
           | (Inr _, s2) \<Rightarrow> retry try_hook is_retry_valid s2))"

text \<open>The default hooks of \<^verbatim>\<open>BaseTask\<close>.\<close>

definition default_try :: "unit action" where
  "default_try s = (Inl (NotImplementedError ''Subclasses should provide their own implementation''), s)"

definition default_is_retry_valid :: "exn \<Rightarrow> bool" where
  "default_is_retry_valid e = True"

subsection \<open>The poll loop: \<^verbatim>\<open>_poll\<close>\<close>

definition poll_update_interval :: "state \<Rightarrow> state" where
  "poll_update_interval s =
     (case s of (self, w) \<Rightarrow>
        if poll_count self div 3 > poll_interval_level self then
          (let self1 = self\<lparr>poll_interval_level := poll_interval_level self + 1\<rparr>;
               self2 = self1\<lparr>poll_interval_s := poll_interval_s self1 + 1\<rparr>
           in (self2, emit (Log_info (Increased_polling_interval (poll_interval_s self2))) w))
        else s)"

text \<open>
  \<^verbatim>\<open>_poll\<close>, for a task variant whose \<^verbatim>\<open>_poll_action\<close> is \<open>poll_action\<close>. \<open>None\<close> is
  the run that never returns.
\<close>

partial_function (option) poll ::
  "unit action \<Rightarrow> state \<Rightarrow> ((exn + unit) \<times> state) option" where
  "poll poll_action s =
     (case poll_action ((fst s)\<lparr>poll_count := poll_count (fst s) + 1\<rparr>,
                        emit (Invoked ''_poll_action'') (snd s)) of
        (Inl e, s1) \<Rightarrow> Some (Inl e, s1)
      | (Inr _, s1) \<Rightarrow>
          if poll_complete (fst s1) then Some (Inr (), s1)
          else
            (case time_sleep (PInt (poll_interval_s (fst s1))) (snd s1) of
               (Inl x, w2) \<Rightarrow> Some (Inl x, (fst s1, w2))
             | (Inr _, w2) \<Rightarrow> poll poll_action (poll_update_interval (fst s1, w2))))"

definition default_poll_action :: "unit action" where
  "default_poll_action s =
     (Inl (NotImplementedError ''Subclasses should provide their own implementation''), s)"

subsection \<open>Scripted hooks\<close>

text \<open>
  A fallible step given by the outcome of each of its invocations: \<open>outcome n\<close> is the
  error the \<open>n\<close>-th invocation raises (counting from 1), or \<open>None\<close> when that invocation
  returns. The step changes nothing of the task.
\<close>

definition scripted_try :: "(nat \<Rightarrow> exn option) \<Rightarrow> unit action" where
  "scripted_try outcome s =
     ((case outcome (invocations ''_try'' (snd s)) of None \<Rightarrow> Inr () | Some e \<Rightarrow> Inl e), s)"

text \<open>A probe that sets \<^verbatim>\<open>poll_complete\<close> on its \<open>M\<close>-th invocation and only then.\<close>

definition probe_completing_at :: "nat \<Rightarrow> unit action" where
  "probe_completing_at M s =
     (Inr (),
      (if invocations ''_poll_action'' (snd s) = M then (fst s)\<lparr>poll_complete := True\<rparr> else fst s,
       snd s))"

subsection \<open>Observations of a run\<close>

text \<open>
  What a finished run of a loop returned or raised, what it slept, how often it invoked a
  hook and what an option holds afterwards; \<open>None\<close> for a run that never returns.
\<close>

definition run_result :: "((exn + 'a) \<times> state) option \<Rightarrow> (exn + 'a) option" where
  "run_result r = map_option fst r"

definition run_slept :: "((exn + 'a) \<times> state) option \<Rightarrow> pyval list option" where
  "run_slept r = map_option (\<lambda>x. slept (snd (snd x))) r"

definition run_invocations :: "string \<Rightarrow> ((exn + 'a) \<times> state) option \<Rightarrow> nat option" where
  "run_invocations h r = map_option (\<lambda>x. invocations h (snd (snd x))) r"

definition run_option :: "string \<Rightarrow> ((exn + 'a) \<times> state) option \<Rightarrow> pyval option option" where
  "run_option k r = map_option (\<lambda>x. map_of (options (fst (snd x))) k) r"

definition run_self :: "((exn + 'a) \<times> state) option \<Rightarrow> task option" where
  "run_self r = map_option (\<lambda>x. fst (snd x)) r"

subsection \<open>A plain task and world for examples\<close>

definition example_task :: "pydict \<Rightarrow> task" where
  "example_task opts =
     \<lparr>ident = 7,
      cls = \<lparr>cls_name = ''ExampleTask'', task_options = [], salesforce_task = False\<rparr>,
      project_config = \<lparr>pc_truthy = True, pc_attr_str = Map.empty, repo_root = None\<rparr>,
      task_config = \<lparr>tc_name = PNone, tc_class_path = PNone, tc_options = None,
                     tc_checks = PNone, tc_config = []\<rparr>,
      org_config = None, logger = Some ''cumulusci.core.tasks'', poll_complete = False,
      poll_count = 0, poll_interval_level = 0, poll_interval_s = 1, return_values = [],
      result = PNone, flow = None, name = PNone, stepnum = PNone, debug_mode = False,
      options = opts, working_path = None\<rparr>"

definition example_world :: world where
  "example_world = \<lparr>stack = None, cwd = ''/home/user'', trace = []\<rparr>"

text \<open>A step that raises \<open>e\<close> on its first \<open>k\<close> invocations and returns from then on.\<close>

definition fails_first :: "nat \<Rightarrow> exn \<Rightarrow> nat \<Rightarrow> exn option" where
  "fails_first k e n = (if n \<le> k then Some e else None)"

definition always_fails :: "exn \<Rightarrow> nat \<Rightarrow> exn option" where
  "always_fails e n = Some e"

subsection \<open>Invocation: \<^verbatim>\<open>stacked_task\<close> and \<^verbatim>\<open>__call__\<close>\<close>

text \<open>
  A context manager is a function from the action of the \<^verbatim>\<open>with\<close> body to the action of
  the whole \<^verbatim>\<open>with\<close> statement; what stands in its \<^verbatim>\<open>finally\<close> runs whether the body
  returned or raised.

  \<^verbatim>\<open>stacked_task(task)\<close>: the stack attribute is created when missing, the task is appended;
  on exit \<^verbatim>\<open>CURRENT_TASK.stack.pop()\<close> removes the last element, and raises when the body
  has removed the attribute or emptied the list (an error raised in \<^verbatim>\<open>finally\<close> replaces
  the body's).
\<close>

definition stacked_task :: "nat \<Rightarrow> 'a action \<Rightarrow> 'a action" where
  "stacked_task tid body s =
     (case s of (self, w) \<Rightarrow>
        (let st = (case stack w of None \<Rightarrow> [] | Some st \<Rightarrow> st)
         in case body (self, w\<lparr>stack := Some (st @ [tid])\<rparr>) of
              (r, (self1, w1)) \<Rightarrow>
                (case stack w1 of
                   None \<Rightarrow> (Inl (AttributeError ''stack''), (self1, w1))
                 | Some st1 \<Rightarrow>
                     if st1 = [] then (Inl IndexError, (self1, w1))
                     else (r, (self1, w1\<lparr>stack := Some (butlast st1)\<rparr>)))))"

text \<open>
  Modelled from the spec: \<^verbatim>\<open>cumulusci.utils.cd\<close> is imported by this module and its source
  is not part of it. The spec (4.3, step 5) has it "remember the caller's current directory,
  then scope execution to the project's root directory if one is configured, restoring the
  original directory unconditionally on exit".
\<close>

definition cd :: "string option \<Rightarrow> 'a action \<Rightarrow> 'a action" where
  "cd path body s =
     (case s of (self, w) \<Rightarrow>
        (let original = cwd w;
             w0 = (case path of None \<Rightarrow> w | Some p \<Rightarrow> w\<lparr>cwd := p\<rparr>)
         in case body (self, w0) of
              (r, (self1, w1)) \<Rightarrow> (r, (self1, w1\<lparr>cwd := original\<rparr>))))"

text \<open>
  Modelled from the spec: \<^verbatim>\<open>cumulusci.utils.logging.redirect_output_to_logger\<close> is
  imported by this module and its source is not part of it. The spec (4.3, step 6) has it
  scope the capture of stdout and stderr into the task's logger. The output streams are not
  part of the world, so the scope adds nothing to the body's action.
\<close>

definition redirect_output_to_logger :: "string option \<Rightarrow> 'a action \<Rightarrow> 'a action" where
  "redirect_output_to_logger lg body = body"

definition nullcontext :: "'a action \<Rightarrow> 'a action" where
  "nullcontext body = body"

text \<open>
  \<^verbatim>\<open>_log_begin\<close>. Reading \<^verbatim>\<open>self.org_config.username\<close> of a missing org configuration
  raises \<^verbatim>\<open>AttributeError\<close>.
\<close>

definition log_begin :: "unit action" where
  "log_begin s =
     (case s of (self, w) \<Rightarrow>
        (let w1 = emit (Log_info (Beginning_task (cls_name (cls self)))) w
         in if salesforce_task (cls self) \<and> flow self = None then
              (case org_config self of
                 None \<Rightarrow> (Inl (AttributeError ''username''), (self, w1))
               | Some oc \<Rightarrow>
                   (Inr (),
                    (self,
                     emit (Log_info Blank_line)
                       (emit (Log_info (In_org (org_id oc)))
                          (emit (Log_info (As_user (username oc))) w1)))))
            else (Inr (), (self, emit (Log_info Blank_line) w1))))"

text \<open>
  The innermost block of \<^verbatim>\<open>__call__\<close>: the banner, the task body (\<open>run_task_hook\<close> is
  the variant's \<^verbatim>\<open>_run_task\<close>), the assignment of its value to \<^verbatim>\<open>self.result\<close>, and
  \<^verbatim>\<open>return self.return_values\<close>.
\<close>

definition run_and_return :: "pyval action \<Rightarrow> pydict action" where
  "run_and_return run_task_hook s =
     (case log_begin s of
        (Inl e, s1) \<Rightarrow> (Inl e, s1)
      | (Inr _, s1) \<Rightarrow>
          (case run_task_hook (fst s1, emit (Invoked ''_run_task'') (snd s1)) of
             (Inl e, s2) \<Rightarrow> (Inl e, s2)
           | (Inr v, s2) \<Rightarrow>
               (Inr (return_values ((fst s2)\<lparr>result := v\<rparr>)),
                ((fst s2)\<lparr>result := v\<rparr>, snd s2))))"

text \<open>
  The block under \<^verbatim>\<open>with stacked_task(self):\<close>. \<open>capture\<close> is whether the environment
  variable \<^verbatim>\<open>CAPTURE_TASK_OUTPUT\<close> was set when the module was loaded.
\<close>

definition in_project_root :: "bool \<Rightarrow> pyval action \<Rightarrow> pydict action" where
  "in_project_root capture run_task_hook s =
     (case s of (self, w) \<Rightarrow>
        (let self1 = self\<lparr>working_path := Some (cwd w)\<rparr>;
             path = (if pc_truthy (project_config self1) then repo_root (project_config self1)
                     else None)
         in cd path
              ((if capture then redirect_output_to_logger (logger self1) else nullcontext)
                 (run_and_return run_task_hook))
              (self1, w)))"

text \<open>
  \<^verbatim>\<open>__call__\<close>, for a task variant with the hooks \<^verbatim>\<open>_update_credentials\<close>,
  \<^verbatim>\<open>_init_task\<close> and \<^verbatim>\<open>_run_task\<close>.
\<close>

definition call :: "bool \<Rightarrow> unit action \<Rightarrow> unit action \<Rightarrow> pyval action \<Rightarrow> pydict action" where
  "call capture update_credentials init_task run_task_hook s =
     (case s of (self, w) \<Rightarrow>
        if salesforce_task (cls self) \<and> org_config self = None then
          (Inl (TaskRequiresSalesforceOrg
                 (''This task requires a salesforce org. ''
                  @ ''Use org default <name> to set a default org ''
                  @ ''or pass the org name with the --org option'')), s)
        else
          (case update_credentials (self, emit (Invoked ''_update_credentials'') w) of
             (Inl e, s1) \<Rightarrow> (Inl e, s1)
           | (Inr _, s1) \<Rightarrow>
               (case init_task (fst s1, emit (Invoked ''_init_task'') (snd s1)) of
                  (Inl e, s2) \<Rightarrow> (Inl e, s2)
                | (Inr _, s2) \<Rightarrow>
                    stacked_task (ident self) (in_project_root capture run_task_hook) s2)))"

text \<open>The default hooks of \<^verbatim>\<open>BaseTask\<close>.\<close>

definition default_update_credentials :: "unit action" where
  "default_update_credentials s = (Inr (), s)"

definition default_init_task :: "unit action" where
  "default_init_task s = (Inr (), s)"

definition default_run_task :: "pyval action" where
  "default_run_task s =
     (Inl (NotImplementedError ''Subclasses should provide their own implementation''), s)"



subsection \<open>\<^verbatim>\<open>freeze\<close>\<close>

text \<open>
  The step descriptor of the flow is external. It is represented by what \<^verbatim>\<open>freeze\<close> reads
  of it: \<^verbatim>\<open>step.path\<close>, \<^verbatim>\<open>str(step.step_num)\<close> and
  \<^verbatim>\<open>step.project_config.source.frozenspec\<close>.
\<close>

record step =
  step_path :: pyval
  step_num_str :: string
  step_source_frozenspec :: pyval

text \<open>
  The record \<^verbatim>\<open>freeze\<close> builds is a dict that \<^verbatim>\<open>dict.update\<close> can give keys of any
  hashable kind. A key is a string, a number (\<^verbatim>\<open>True\<close> and 1 are one key, as are
  \<^verbatim>\<open>False\<close> and 0) or \<^verbatim>\<open>None\<close>; a list or a dict is not hashable
  (\<^verbatim>\<open>TypeError\<close>).
\<close>

datatype key = KStr string | KInt int | KNone

type_synonym pyrecord = "(key \<times> pyval) list"

fun as_key :: "pyval \<Rightarrow> exn + key" where
  "as_key (PStr s) = Inr (KStr s)"
| "as_key (PInt i) = Inr (KInt i)"
| "as_key (PBool b) = Inr (KInt (if b then 1 else 0))"
| "as_key PNone = Inr KNone"
| "as_key (PList xs) = Inl TypeError"
| "as_key (PDict d) = Inl TypeError"

text \<open>
  \<^verbatim>\<open>dict.update(other)\<close> of the standard library. For a mapping, its items are stored in
  order. Any other argument is iterated, and every element must itself be a sequence of
  exactly two items, the key and the value: a list of two values; a string of two
  characters; a dict of two entries, which is iterated as its keys. An element of another
  length raises \<^verbatim>\<open>ValueError\<close>, an element that is no sequence raises \<^verbatim>\<open>TypeError\<close>,
  and so does an argument that cannot be iterated. A string argument is iterated as its
  characters, each a string of length one.
\<close>

fun update_items :: "pyrecord \<Rightarrow> pydict \<Rightarrow> pyrecord" where
  "update_items r [] = r"
| "update_items r ((k, v) # rest) = update_items (AList.update (KStr k) v r) rest"

fun as_pair :: "pyval \<Rightarrow> exn + (pyval \<times> pyval)" where
  "as_pair (PList xs) = (case xs of [k, v] \<Rightarrow> Inr (k, v) | _ \<Rightarrow> Inl ValueError)"
| "as_pair (PStr s) = (case s of [a, b] \<Rightarrow> Inr (PStr [a], PStr [b]) | _ \<Rightarrow> Inl ValueError)"
| "as_pair (PDict d) =
     (case d of [(k1, v1), (k2, v2)] \<Rightarrow> Inr (PStr k1, PStr k2) | _ \<Rightarrow> Inl ValueError)"
| "as_pair PNone = Inl TypeError"
| "as_pair (PBool b) = Inl TypeError"
| "as_pair (PInt i) = Inl TypeError"

fun update_pairs :: "pyrecord \<Rightarrow> pyval list \<Rightarrow> exn + pyrecord" where
  "update_pairs r [] = Inr r"
| "update_pairs r (x # xs) =
     (case as_pair x of
        Inl e \<Rightarrow> Inl e
      | Inr (k, v) \<Rightarrow>
          (case as_key k of
             Inl e \<Rightarrow> Inl e
           | Inr key \<Rightarrow> update_pairs (AList.update key v r) xs))"

fun record_update :: "pyrecord \<Rightarrow> pyval \<Rightarrow> exn + pyrecord" where
  "record_update r (PDict d) = Inr (update_items r d)"
| "record_update r (PList xs) = update_pairs r xs"
| "record_update r (PStr s) = update_pairs r (map (\<lambda>c. PStr [c]) s)"
| "record_update r PNone = Inl TypeError"
| "record_update r (PBool b) = Inl TypeError"
| "record_update r (PInt i) = Inl TypeError"

text \<open>\<^verbatim>\<open>self.task_config.config.get("ui_options", {})\<close>.\<close>

definition ui_options :: "task \<Rightarrow> pyval" where
  "ui_options self =
     (case map_of (tc_config (task_config self)) ''ui_options'' of
        None \<Rightarrow> PDict []
      | Some u \<Rightarrow> u)"

definition freeze :: "task \<Rightarrow> step \<Rightarrow> exn + pyrecord list" where
  "freeze self step =
     (let ui_step =
            [(KStr ''name'', if truthy (tc_name (task_config self)) then tc_name (task_config self)
                             else name self),
             (KStr ''kind'', PStr ''other''),
             (KStr ''is_required'', PBool True)]
      in case record_update ui_step (ui_options self) of
           Inl e \<Rightarrow> Inl e
         | Inr ui_step1 \<Rightarrow>
             (let task_config_block =
                    [(''options'', PDict (options self)),
                     (''checks'', if truthy (tc_checks (task_config self))
                                  then tc_checks (task_config self) else PList [])];
                  ui_step2 = update_items ui_step1
                    [(''path'', step_path step),
                     (''step_num'', PStr (step_num_str step)),
                     (''task_class'', tc_class_path (task_config self)),
                     (''task_config'', PDict task_config_block),
                     (''source'', step_source_frozenspec step)]
              in Inr [ui_step2]))"

subsection \<open>\<^verbatim>\<open>BaseSalesforceTask._get_client_name\<close>\<close>

text \<open>
  The keychain is external: \<open>get_service\<close> stands for
  \<^verbatim>\<open>self.project_config.keychain.get_service\<close>, which returns a service configuration or
  raises; \<open>version\<close> stands for \<^verbatim>\<open>cumulusci.__version__\<close>.
\<close>

record service =
  client_id :: pyval

definition get_client_name :: "string \<Rightarrow> (string \<Rightarrow> exn + service) \<Rightarrow> exn + pyval" where
  "get_client_name version get_service =
     (case get_service ''connectedapp'' of
        Inr app \<Rightarrow> Inr (client_id app)
      | Inl (ServiceNotValid m) \<Rightarrow> Inr (PStr (''CumulusCI/'' @ version))
      | Inl (ServiceNotConfigured m) \<Rightarrow> Inr (PStr (''CumulusCI/'' @ version))
      | Inl e \<Rightarrow> Inl e)"


text \<open>A step descriptor and a configured task for examples of \<^verbatim>\<open>freeze\<close>.\<close>

definition example_step :: step where
  "example_step =
     \<lparr>step_path = PStr ''force_deploy'', step_num_str = ''1'',
      step_source_frozenspec = PDict [(''github'', PStr ''https://github.com/org/repo'')]\<rparr>"

definition example_frozen_task :: "pydict \<Rightarrow> task" where
  "example_frozen_task ui =
     (example_task [(''tag'', PStr ''release/1.0'')])
       \<lparr>task_config :=
          \<lparr>tc_name = PStr ''deploy'', tc_class_path = PStr ''cumulusci.tasks.salesforce.Deploy'',
           tc_options = Some [(''tag'', PStr ''release/1.0'')], tc_checks = PNone,
           tc_config = [(''ui_options'', PDict ui)]\<rparr>\<rparr>"



section \<open>Theorems\<close>

subsection \<open>Option validation\<close>

lemma missing_loop_acc:
  "missing_loop schema opts acc = acc @ required_absent schema opts"
proof (induction schema arbitrary: acc)
  case Nil
  show ?case by (simp add: required_absent_def)
next
  case (Cons p schema)
  obtain name config where p: "p = (name, config)" by (cases p)
  have "required_absent (p # schema) opts =
      (if map_of config ''required'' = Some (PBool True) \<and> map_of opts name = None
       then [name] else []) @ required_absent schema opts"
    by (simp add: required_absent_def p map_of_eq_None_iff)
  then show ?case by (simp add: p Cons.IH)
qed

lemma validate_options_eq:
  "validate_options c opts =
     (if required_absent (task_options c) opts = [] then Inr ()
      else Inl (TaskOptionsError
                 (cls_name c @ '' requires the options (''
                    @ join '','' (required_absent (task_options c) opts)
                    @ '') and no values were provided'')))"
  by (simp add: validate_options_def missing_loop_acc)

lemma init_options_of_init:
  "init i c dbg pc tc oc fl nm sn lg kwargs = Inr t \<Longrightarrow> options t = init_options pc tc kwargs"
  by (auto simp: init_def Let_def reset_poll_def init_logger_def
           split: sum.splits option.splits if_splits)

lemma init_eq_validate:
  "(case init i c dbg pc tc oc fl nm sn lg kwargs of Inl e \<Rightarrow> Inl e | Inr t \<Rightarrow> Inr ())
     = validate_options c (init_options pc tc kwargs)"
  by (auto simp: init_def Let_def reset_poll_def init_logger_def
           split: sum.splits option.splits if_splits)

text \<open>
  C3. Construction (\<^verbatim>\<open>__init__\<close>) fails with a \<^verbatim>\<open>TaskOptionsError\<close> exactly when some name
  marked required in the schema is absent from the resolved options; the message then names
  every such name, comma-joined in schema declaration order. When none is missing,
  construction returns the task, whose options are the resolved options.
\<close>

theorem init_missing_required:
  "(if required_absent (task_options c) (init_options pc tc kwargs) = []
    then (\<exists>t. init i c dbg pc tc oc fl nm sn lg kwargs = Inr t
              \<and> options t = init_options pc tc kwargs)
    else init i c dbg pc tc oc fl nm sn lg kwargs =
           Inl (TaskOptionsError
                 (cls_name c @ '' requires the options (''
                    @ join '','' (required_absent (task_options c) (init_options pc tc kwargs))
                    @ '') and no values were provided'')))"
proof -
  let ?r = "init i c dbg pc tc oc fl nm sn lg kwargs"
  have v: "(case ?r of Inl e \<Rightarrow> Inl e | Inr t \<Rightarrow> Inr ())
             = validate_options c (init_options pc tc kwargs)"
    by (rule init_eq_validate)
  show ?thesis
  proof (cases ?r)
    case (Inl e)
    with v show ?thesis
      by (simp add: validate_options_eq split: if_splits)
  next
    case (Inr t)
    with v init_options_of_init [OF Inr] show ?thesis
      by (simp add: validate_options_eq split: if_splits)
  qed
qed

theorem init_missing_required_witness:
  "init 0 \<lparr>cls_name = ''Deploy'',
            task_options = [(''x'', [(''required'', PBool True)]), (''w'', []),
                            (''y'', [(''required'', PBool True)])],
            salesforce_task = False\<rparr>
        False \<lparr>pc_truthy = True, pc_attr_str = Map.empty, repo_root = None\<rparr>
        \<lparr>tc_name = PNone, tc_class_path = PNone, tc_options = None, tc_checks = PNone,
         tc_config = []\<rparr>
        None None PNone PNone None []
   = Inl (TaskOptionsError ''Deploy requires the options (x,y) and no values were provided'')"
  using init_missing_required
    [of "\<lparr>cls_name = ''Deploy'',
            task_options = [(''x'', [(''required'', PBool True)]), (''w'', []),
                            (''y'', [(''required'', PBool True)])],
            salesforce_task = False\<rparr>"
        "\<lparr>pc_truthy = True, pc_attr_str = Map.empty, repo_root = None\<rparr>"
        "\<lparr>tc_name = PNone, tc_class_path = PNone, tc_options = None, tc_checks = PNone,
         tc_config = []\<rparr>" "[]" 0 False None None PNone PNone None]
  by (simp add: required_absent_def init_options_def)

lemma set_required_absent:
  "set (required_absent schema opts) =
     {name. (\<exists>config. (name, config) \<in> set schema
                \<and> map_of config ''required'' = Some (PBool True)) \<and> map_of opts name = None}"
  by (auto simp: required_absent_def map_of_eq_None_iff image_iff)

lemma required_absent_Nil_iff:
  "required_absent schema opts = [] \<longleftrightarrow>
     (\<forall>(n, config) \<in> set schema.
        map_of config ''required'' = Some (PBool True) \<longrightarrow> map_of opts n \<noteq> None)"
  by (auto simp: required_absent_def filter_empty_conv map_of_eq_None_iff)

lemma init_succeeds_iff:
  "(\<exists>t. init i c dbg pc tc oc fl nm sn lg kwargs = Inr t)
     \<longleftrightarrow> required_absent (task_options c) (init_options pc tc kwargs) = []"
  using init_eq_validate [of i c dbg pc tc oc fl nm sn lg kwargs]
  by (cases "init i c dbg pc tc oc fl nm sn lg kwargs")
     (auto simp: validate_options_eq split: if_splits)

text \<open>
  C10. A name is reported missing exactly when some descriptor of the schema maps
  \<^verbatim>\<open>required\<close> to the boolean \<open>True\<close> itself and the resolved options have no such key.
  So construction succeeds exactly when every name whose descriptor has
  \<^verbatim>\<open>required\<close> identical to \<open>True\<close> is a key of the resolved options, whatever its value
  (\<open>PNone\<close> included); a descriptor whose \<^verbatim>\<open>required\<close> is another truthy value (the
  integer 1, a non-empty string) imposes nothing.
\<close>

theorem required_is_True_only:
  "(nm0 \<in> set (missing_loop schema opts []) \<longleftrightarrow>
      (\<exists>config. (nm0, config) \<in> set schema
          \<and> map_of config ''required'' = Some (PBool True)) \<and> map_of opts nm0 = None)
   \<and> ((\<exists>t. init i c dbg pc tc oc fl nm sn lg kwargs = Inr t) \<longleftrightarrow>
        (\<forall>(n, config) \<in> set (task_options c).
            map_of config ''required'' = Some (PBool True)
              \<longrightarrow> map_of (init_options pc tc kwargs) n \<noteq> None))"
proof
  show "nm0 \<in> set (missing_loop schema opts []) \<longleftrightarrow>
      (\<exists>config. (nm0, config) \<in> set schema
          \<and> map_of config ''required'' = Some (PBool True)) \<and> map_of opts nm0 = None"
    by (simp add: missing_loop_acc set_required_absent)
next
  show "(\<exists>t. init i c dbg pc tc oc fl nm sn lg kwargs = Inr t) \<longleftrightarrow>
        (\<forall>(n, config) \<in> set (task_options c).
            map_of config ''required'' = Some (PBool True)
              \<longrightarrow> map_of (init_options pc tc kwargs) n \<noteq> None)"
    by (simp only: init_succeeds_iff required_absent_Nil_iff)
qed


theorem required_is_True_only_witness:
  "''x'' \<notin> set (missing_loop [(''x'', [(''required'', PInt 1)]),
                               (''y'', [(''required'', PBool True)]),
                               (''z'', [(''required'', PBool True)])]
                     [(''z'', PNone)] [])
   \<and> (\<exists>t. init 0 \<lparr>cls_name = ''Deploy'',
            task_options = [(''x'', [(''required'', PInt 1)]),
                            (''v'', [(''required'', PStr ''yes'')]),
                            (''z'', [(''required'', PBool True)])],
            salesforce_task = False\<rparr>
        False \<lparr>pc_truthy = True, pc_attr_str = Map.empty, repo_root = None\<rparr>
        \<lparr>tc_name = PNone, tc_class_path = PNone, tc_options = Some [(''z'', PNone)],
         tc_checks = PNone, tc_config = []\<rparr>
        None None PNone PNone None [] = Inr t)"
proof
  show "''x'' \<notin> set (missing_loop [(''x'', [(''required'', PInt 1)]),
                               (''y'', [(''required'', PBool True)]),
                               (''z'', [(''required'', PBool True)])]
                     [(''z'', PNone)] [])"
    using required_is_True_only
      [of "''x''" "[(''x'', [(''required'', PInt 1)]),
                    (''y'', [(''required'', PBool True)]),
                    (''z'', [(''required'', PBool True)])]" "[(''z'', PNone)]"]
    by simp
next
  show "\<exists>t. init 0 \<lparr>cls_name = ''Deploy'',
            task_options = [(''x'', [(''required'', PInt 1)]),
                            (''v'', [(''required'', PStr ''yes'')]),
                            (''z'', [(''required'', PBool True)])],
            salesforce_task = False\<rparr>
        False \<lparr>pc_truthy = True, pc_attr_str = Map.empty, repo_root = None\<rparr>
        \<lparr>tc_name = PNone, tc_class_path = PNone, tc_options = Some [(''z'', PNone)],
         tc_checks = PNone, tc_config = []\<rparr>
        None None PNone PNone None [] = Inr t"
    using required_is_True_only
      [of _ _ _
        0 "\<lparr>cls_name = ''Deploy'',
            task_options = [(''x'', [(''required'', PInt 1)]),
                            (''v'', [(''required'', PStr ''yes'')]),
                            (''z'', [(''required'', PBool True)])],
            salesforce_task = False\<rparr>"
        False "\<lparr>pc_truthy = True, pc_attr_str = Map.empty, repo_root = None\<rparr>"
        "\<lparr>tc_name = PNone, tc_class_path = PNone, tc_options = Some [(''z'', PNone)],
         tc_checks = PNone, tc_config = []\<rparr>" None None PNone PNone None "[]"]
    by (simp add: init_options_def)
qed

subsection \<open>The retry loop\<close>

lemma map_of_dict_set: "map_of (dict_set k v d) = (map_of d)(k \<mapsto> v)"
  by (simp add: dict_set_def update_conv')

lemma invocations_emit:
  "invocations h (emit ev w) = invocations h w + (if ev = Invoked h then 1 else 0)"
  by (simp add: invocations_def emit_def)

lemma slept_emit:
  "slept (emit ev w) = slept w @ (case ev of Slept v \<Rightarrow> [v] | _ \<Rightarrow> [])"
  by (simp add: slept_def emit_def)

lemma retry_except_continue:
  assumes r: "map_of (options self) ''retries'' = Some (PInt r)" "r \<noteq> 0"
    and v: "valid e"
    and i: "map_of (options self) ''retry_interval'' = Some (PInt I)" "0 \<le> I"
    and a: "map_of (options self) ''retry_interval_add'' = Some (PInt A)"
  shows "\<exists>self' w'. retry_except valid e (self, w) = (Inr (), (self', w'))
      \<and> invocations h w' = invocations h w
      \<and> map_of (options self') ''retries'' = Some (PInt (r - 1))
      \<and> map_of (options self') ''retry_interval'' = Some (PInt (if I = 0 then 0 else I + A))
      \<and> map_of (options self') ''retry_interval_add'' = Some (PInt A)
      \<and> slept w' = slept w @ (if I = 0 then [] else [PInt I])"
  using assms
  by (auto simp: retry_except_def retry_sleep_def retry_decrement_def dict_item_def
        time_sleep_def py_sub_def Let_def map_of_dict_set invocations_emit slept_emit)


lemma retry_failures:
  assumes "\<forall>j<k. \<exists>e. outcome (c + 1 + j) = Some e \<and> valid e"
    and "invocations ''_try'' w = c"
    and "map_of (options self) ''retries'' = Some (PInt r)" "int k \<le> r"
    and "map_of (options self) ''retry_interval'' = Some (PInt I)"
    and "map_of (options self) ''retry_interval_add'' = Some (PInt A)"
    and "I = 0 \<or> (\<forall>j<k. 0 < I + int j * A)"
  shows "\<exists>self' w'.
      retry (scripted_try outcome) valid (self, w) = retry (scripted_try outcome) valid (self', w')
      \<and> invocations ''_try'' w' = c + k
      \<and> map_of (options self') ''retries'' = Some (PInt (r - int k))
      \<and> map_of (options self') ''retry_interval'' = Some (PInt (if I = 0 then 0 else I + int k * A))
      \<and> map_of (options self') ''retry_interval_add'' = Some (PInt A)
      \<and> slept w' = slept w @ (if I = 0 then [] else map (\<lambda>j. PInt (I + int j * A)) [0..<k])"
  using assms
proof (induction k arbitrary: self w c r I)
  case 0
  then show ?case by auto
next
  case (Suc k)
  from Suc.prems(1) have "\<exists>e. outcome (c + 1 + 0) = Some e \<and> valid e" by blast
  then obtain e where e: "outcome (Suc c) = Some e" "valid e" by auto
  have I0: "0 \<le> I" using Suc.prems(7) by force
  have r0: "r \<noteq> 0" using Suc.prems(4) by auto
  let ?w1 = "emit (Invoked ''_try'') w"
  obtain self1 w1 where
    step: "retry_except valid e (self, ?w1) = (Inr (), (self1, w1))"
    and inv1: "invocations ''_try'' w1 = invocations ''_try'' ?w1"
    and r1: "map_of (options self1) ''retries'' = Some (PInt (r - 1))"
    and i1: "map_of (options self1) ''retry_interval'' = Some (PInt (if I = 0 then 0 else I + A))"
    and a1: "map_of (options self1) ''retry_interval_add'' = Some (PInt A)"
    and s1: "slept w1 = slept ?w1 @ (if I = 0 then [] else [PInt I])"
    using retry_except_continue [where valid = valid and e = e and w = "?w1"
        and h = "''_try''", OF Suc.prems(3) r0 e(2) Suc.prems(5) I0 Suc.prems(6)]
    by blast
  have c1: "invocations ''_try'' w1 = c + 1"
    using inv1 Suc.prems(2) by (simp add: invocations_emit)
  have unfold: "retry (scripted_try outcome) valid (self, w)
      = retry (scripted_try outcome) valid (self1, w1)"
    by (subst retry.simps)
       (simp add: scripted_try_def invocations_emit Suc.prems(2) e step)
  have out: "\<forall>j<k. \<exists>e. outcome (c + 1 + 1 + j) = Some e \<and> valid e"
  proof (intro allI impI)
    fix j assume "j < k"
    then have "Suc j < Suc k" by simp
    with Suc.prems(1) have "\<exists>e. outcome (c + 1 + Suc j) = Some e \<and> valid e" by blast
    then show "\<exists>e. outcome (c + 1 + 1 + j) = Some e \<and> valid e" by simp
  qed
  have pos: "(if I = 0 then 0 else I + A) = 0 \<or> (\<forall>j<k. 0 < (if I = 0 then 0 else I + A) + int j * A)"
  proof (cases "I = 0")
    case True then show ?thesis by simp
  next
    case False
    with Suc.prems(7) have all: "\<forall>j<Suc k. 0 < I + int j * A" by simp
    have "\<forall>j<k. 0 < I + A + int j * A"
    proof (intro allI impI)
      fix j assume "j < k"
      then have "0 < I + int (Suc j) * A" using all by blast
      then show "0 < I + A + int j * A" by (simp add: algebra_simps)
    qed
    with False show ?thesis by simp
  qed
  have rk: "int k \<le> r - 1" using Suc.prems(4) by simp
  from Suc.IH [OF out c1 r1 rk i1 a1 pos]
  obtain self' w' where
    run: "retry (scripted_try outcome) valid (self1, w1) = retry (scripted_try outcome) valid (self', w')"
    and inv': "invocations ''_try'' w' = c + 1 + k"
    and r': "map_of (options self') ''retries'' = Some (PInt (r - 1 - int k))"
    and i': "map_of (options self') ''retry_interval'' =
        Some (PInt (if (if I = 0 then 0 else I + A) = 0 then 0
                    else (if I = 0 then 0 else I + A) + int k * A))"
    and a': "map_of (options self') ''retry_interval_add'' = Some (PInt A)"
    and s': "slept w' = slept w1 @
        (if (if I = 0 then 0 else I + A) = 0 then []
         else map (\<lambda>j. PInt ((if I = 0 then 0 else I + A) + int j * A)) [0..<k])"
    by blast
  have IA: "I + A \<noteq> 0 \<or> k = 0" if "I \<noteq> 0"
  proof (cases "k = 0")
    case True then show ?thesis by simp
  next
    case False
    then have "1 < Suc k" by simp
    with Suc.prems(7) that have "0 < I + int 1 * A" by blast
    then show ?thesis by simp
  qed
  have sl: "slept w' = slept w @ (if I = 0 then [] else map (\<lambda>j. PInt (I + int j * A)) [0..<Suc k])"
  proof (cases "I = 0")
    case True
    then show ?thesis using s' s1 by (simp add: slept_emit)
  next
    case False
    have m: "map (\<lambda>j. PInt (I + int j * A)) [0..<Suc k]
        = PInt I # map (\<lambda>j. PInt (I + A + int j * A)) [0..<k]"
      by (simp add: upt_conv_Cons map_Suc_upt [symmetric] algebra_simps del: upt_Suc)
    show ?thesis
    proof (cases "k = 0")
      case True
      then show ?thesis using False s' s1 by (simp add: slept_emit)
    next
      case k: False
      with IA False have "I + A \<noteq> 0" by simp
      then show ?thesis using False s' s1 m by (simp add: slept_emit del: upt_Suc)
    qed
  qed
  have iv: "map_of (options self') ''retry_interval'' =
      Some (PInt (if I = 0 then 0 else I + int (Suc k) * A))"
  proof (cases "I = 0")
    case True then show ?thesis using i' by simp
  next
    case False
    show ?thesis
    proof (cases "k = 0")
      case True then show ?thesis using False i' by simp
    next
      case k: False
      with IA False have "I + A \<noteq> 0" by simp
      then show ?thesis using False i' by (simp add: algebra_simps)
    qed
  qed
  show ?case
    using unfold run inv' r' iv a' sl
    by (intro exI [of _ self'] exI [of _ w']) (simp add: algebra_simps)
qed


lemma retry_after_failures:
  assumes fail: "\<forall>n. 1 \<le> n \<and> n \<le> k \<longrightarrow> (\<exists>e. outcome n = Some e \<and> valid e)"
    and c: "invocations ''_try'' w = 0"
    and r: "map_of (options self) ''retries'' = Some (PInt (int N))" "k \<le> N"
    and i: "map_of (options self) ''retry_interval'' = Some (PInt I)"
    and a: "map_of (options self) ''retry_interval_add'' = Some (PInt A)"
    and pos: "I = 0 \<or> (\<forall>j<k. 0 < I + int j * A)"
  shows "\<exists>self' w'.
      retry (scripted_try outcome) valid (self, w) = retry (scripted_try outcome) valid (self', w')
      \<and> invocations ''_try'' w' = k
      \<and> map_of (options self') ''retries'' = Some (PInt (int N - int k))
      \<and> map_of (options self') ''retry_interval'' = Some (PInt (if I = 0 then 0 else I + int k * A))
      \<and> slept w' = slept w @ (if I = 0 then [] else map (\<lambda>j. PInt (I + int j * A)) [0..<k])"
proof -
  have f: "\<forall>j<k. \<exists>e. outcome (0 + 1 + j) = Some e \<and> valid e"
    using fail by simp
  have le: "int k \<le> int N" using r(2) by simp
  from retry_failures [OF f c r(1) le i a pos]
  obtain self' w' where
    "retry (scripted_try outcome) valid (self, w) = retry (scripted_try outcome) valid (self', w')"
    "invocations ''_try'' w' = 0 + k"
    "map_of (options self') ''retries'' = Some (PInt (int N - int k))"
    "map_of (options self') ''retry_interval'' = Some (PInt (if I = 0 then 0 else I + int k * A))"
    "slept w' = slept w @ (if I = 0 then [] else map (\<lambda>j. PInt (I + int j * A)) [0..<k])"
    by blast
  then show ?thesis
    by (intro exI [of _ self'] exI [of _ w']) simp
qed

lemma retry_returns:
  assumes "outcome (Suc (invocations ''_try'' w)) = None"
  shows "retry (scripted_try outcome) valid (self, w)
     = Some (Inr (), (self, emit (Invoked ''_try'') w))"
  by (subst retry.simps) (simp add: scripted_try_def invocations_emit assms)

lemma retry_raises:
  assumes "outcome (Suc (invocations ''_try'' w)) = Some e"
    and "map_of (options self) ''retries'' = Some (PInt 0)"
  shows "retry (scripted_try outcome) valid (self, w)
     = Some (Inl e, (self, emit (Invoked ''_try'') w))"
  by (subst retry.simps)
     (simp add: scripted_try_def invocations_emit assms retry_except_def dict_item_def)

text \<open>
  C1. The options hold \<^verbatim>\<open>retries\<close> = \<open>N\<close> and the numeric settings the loop reads
  (\<^verbatim>\<open>retry_interval\<close> and \<^verbatim>\<open>retry_interval_add\<close>, both non-negative integers). The step is
  a scripted one, not yet invoked. If its invocations 1 to \<open>N\<close> raise errors that
  \<^verbatim>\<open>_is_retry_valid\<close> accepts and invocation \<open>N + 1\<close> raises \<open>e\<close>, then \<^verbatim>\<open>_retry\<close> raises
  \<open>e\<close> and the step has been invoked \<open>N + 1\<close> times. If its invocations 1 to \<open>k\<close>
  (\<open>k \<le> N\<close>) raise accepted errors and invocation \<open>k + 1\<close> returns, then \<^verbatim>\<open>_retry\<close>
  returns, the step has been invoked \<open>k + 1\<close> times and \<^verbatim>\<open>options["retries"]\<close> is
  \<open>N - k\<close>.
\<close>

theorem retry_attempts:
  assumes r: "map_of (options self) ''retries'' = Some (PInt (int N))"
    and i: "map_of (options self) ''retry_interval'' = Some (PInt I)" "0 \<le> I"
    and a: "map_of (options self) ''retry_interval_add'' = Some (PInt A)" "0 \<le> A"
    and c: "invocations ''_try'' w = 0"
  shows
    "((\<forall>n. 1 \<le> n \<and> n \<le> N \<longrightarrow> (\<exists>e. outcome n = Some e \<and> valid e)) \<and> outcome (N + 1) = Some e
        \<longrightarrow> run_result (retry (scripted_try outcome) valid (self, w)) = Some (Inl e)
          \<and> run_invocations ''_try'' (retry (scripted_try outcome) valid (self, w)) = Some (N + 1))
     \<and> (k \<le> N \<and> (\<forall>n. 1 \<le> n \<and> n \<le> k \<longrightarrow> (\<exists>e. outcome n = Some e \<and> valid e))
          \<and> outcome (k + 1) = None
        \<longrightarrow> run_result (retry (scripted_try outcome) valid (self, w)) = Some (Inr ())
          \<and> run_invocations ''_try'' (retry (scripted_try outcome) valid (self, w)) = Some (k + 1)
          \<and> run_option ''retries'' (retry (scripted_try outcome) valid (self, w))
              = Some (Some (PInt (int N - int k))))"
proof -
  have pos: "I = 0 \<or> (\<forall>j<m. 0 < I + int j * A)" for m
  proof (cases "I = 0")
    case True then show ?thesis by simp
  next
    case False
    with i(2) have "0 < I" by simp
    moreover have "0 \<le> int j * A" for j using a(2) by simp
    ultimately show ?thesis by (simp add: add_pos_nonneg)
  qed
  show ?thesis
  proof (intro conjI impI)
    assume h: "(\<forall>n. 1 \<le> n \<and> n \<le> N \<longrightarrow> (\<exists>e. outcome n = Some e \<and> valid e))
        \<and> outcome (N + 1) = Some e"
    from retry_after_failures [OF _ c r _ i(1) a(1) pos, of N outcome valid] h
    obtain self' w' where
      run: "retry (scripted_try outcome) valid (self, w)
          = retry (scripted_try outcome) valid (self', w')"
      and inv: "invocations ''_try'' w' = N"
      and ret: "map_of (options self') ''retries'' = Some (PInt (int N - int N))"
      by auto
    have "retry (scripted_try outcome) valid (self', w')
        = Some (Inl e, (self', emit (Invoked ''_try'') w'))"
      using h inv ret by (intro retry_raises) simp_all
    with run inv
    show "run_result (retry (scripted_try outcome) valid (self, w)) = Some (Inl e)"
      and "run_invocations ''_try'' (retry (scripted_try outcome) valid (self, w)) = Some (N + 1)"
      by (simp_all add: run_result_def run_invocations_def invocations_emit)
  next
    assume h: "k \<le> N \<and> (\<forall>n. 1 \<le> n \<and> n \<le> k \<longrightarrow> (\<exists>e. outcome n = Some e \<and> valid e))
          \<and> outcome (k + 1) = None"
    from retry_after_failures [OF _ c r _ i(1) a(1) pos, of k outcome valid] h
    obtain self' w' where
      run: "retry (scripted_try outcome) valid (self, w)
          = retry (scripted_try outcome) valid (self', w')"
      and inv: "invocations ''_try'' w' = k"
      and ret: "map_of (options self') ''retries'' = Some (PInt (int N - int k))"
      by auto
    have "retry (scripted_try outcome) valid (self', w')
        = Some (Inr (), (self', emit (Invoked ''_try'') w'))"
      using h inv by (intro retry_returns) simp
    with run inv ret
    show "run_result (retry (scripted_try outcome) valid (self, w)) = Some (Inr ())"
      and "run_invocations ''_try'' (retry (scripted_try outcome) valid (self, w)) = Some (k + 1)"
      and "run_option ''retries'' (retry (scripted_try outcome) valid (self, w))
              = Some (Some (PInt (int N - int k)))"
      by (simp_all add: run_result_def run_invocations_def run_option_def invocations_emit)
  qed
qed

theorem retry_attempts_witness:
  "run_result (retry (scripted_try (fails_first 2 (OtherError ''boom''))) default_is_retry_valid
       (example_task [(''retries'', PInt 3), (''retry_interval'', PInt 5),
                      (''retry_interval_add'', PInt 30)], example_world)) = Some (Inr ())
   \<and> run_option ''retries''
        (retry (scripted_try (fails_first 2 (OtherError ''boom''))) default_is_retry_valid
          (example_task [(''retries'', PInt 3), (''retry_interval'', PInt 5),
                         (''retry_interval_add'', PInt 30)], example_world))
       = Some (Some (PInt 1))
   \<and> run_result (retry (scripted_try (always_fails (OtherError ''boom''))) default_is_retry_valid
       (example_task [(''retries'', PInt 3), (''retry_interval'', PInt 5),
                      (''retry_interval_add'', PInt 30)], example_world))
       = Some (Inl (OtherError ''boom''))
   \<and> run_invocations ''_try''
        (retry (scripted_try (always_fails (OtherError ''boom''))) default_is_retry_valid
          (example_task [(''retries'', PInt 3), (''retry_interval'', PInt 5),
                         (''retry_interval_add'', PInt 30)], example_world))
       = Some 4"
  using retry_attempts
    [where self = "example_task [(''retries'', PInt 3), (''retry_interval'', PInt 5),
                      (''retry_interval_add'', PInt 30)]"
       and N = 3 and I = 5 and A = 30 and w = example_world
       and outcome = "fails_first 2 (OtherError ''boom'')"
       and valid = default_is_retry_valid and k = 2 and e = "OtherError ''boom''"]
    retry_attempts
    [where self = "example_task [(''retries'', PInt 3), (''retry_interval'', PInt 5),
                      (''retry_interval_add'', PInt 30)]"
       and N = 3 and I = 5 and A = 30 and w = example_world
       and outcome = "always_fails (OtherError ''boom'')"
       and valid = default_is_retry_valid and k = 0 and e = "OtherError ''boom''"]
  by (simp add: example_task_def example_world_def fails_first_def always_fails_def
        default_is_retry_valid_def invocations_def)

text \<open>
  The loop sleeps \<^verbatim>\<open>retry_interval\<close> seconds whenever that is truthy, and
  \<^verbatim>\<open>time.sleep\<close> refuses a negative duration. With \<^verbatim>\<open>retries\<close> = 2,
  \<^verbatim>\<open>retry_interval\<close> = 1 and \<^verbatim>\<open>retry_interval_add\<close> = -2 the interval is -1 after
  the first sleep: the second failure of the step ends the loop with \<^verbatim>\<open>ValueError\<close>,
  after two invocations and not three, and the step's own error is lost.
\<close>

theorem retry_attempts_counterexample:
  "run_result (retry (scripted_try (always_fails (OtherError ''boom''))) default_is_retry_valid
       (example_task [(''retries'', PInt 2), (''retry_interval'', PInt 1),
                      (''retry_interval_add'', PInt (- 2))], example_world))
     = Some (Inl ValueError)
   \<and> run_invocations ''_try''
       (retry (scripted_try (always_fails (OtherError ''boom''))) default_is_retry_valid
       (example_task [(''retries'', PInt 2), (''retry_interval'', PInt 1),
                      (''retry_interval_add'', PInt (- 2))], example_world)) = Some 2"
  by (simp add: retry.simps scripted_try_def always_fails_def default_is_retry_valid_def
        example_task_def example_world_def retry_except_def retry_sleep_def retry_decrement_def
        dict_item_def dict_set_def time_sleep_def py_sub_def emit_def invocations_def
        run_result_def run_invocations_def Let_def)

lemma retry_except_continue_falsy:
  assumes r: "map_of (options self) ''retries'' = Some (PInt r)" "r \<noteq> 0"
    and v: "valid e"
    and i: "map_of (options self) ''retry_interval'' = Some v" "\<not> truthy v"
  shows "\<exists>self' w'. retry_except valid e (self, w) = (Inr (), (self', w'))
      \<and> invocations h w' = invocations h w
      \<and> map_of (options self') ''retries'' = Some (PInt (r - 1))
      \<and> map_of (options self') ''retry_interval'' = Some v
      \<and> slept w' = slept w"
  using assms
  by (auto simp: retry_except_def retry_decrement_def dict_item_def
        py_sub_def map_of_dict_set invocations_emit slept_emit)

lemma retry_failures_falsy:
  assumes "\<forall>j<k. \<exists>e. outcome (c + 1 + j) = Some e \<and> valid e"
    and "invocations ''_try'' w = c"
    and "map_of (options self) ''retries'' = Some (PInt r)" "int k \<le> r"
    and "map_of (options self) ''retry_interval'' = Some v" "\<not> truthy v"
  shows "\<exists>self' w'.
      retry (scripted_try outcome) valid (self, w) = retry (scripted_try outcome) valid (self', w')
      \<and> invocations ''_try'' w' = c + k
      \<and> map_of (options self') ''retries'' = Some (PInt (r - int k))
      \<and> map_of (options self') ''retry_interval'' = Some v
      \<and> slept w' = slept w"
  using assms
proof (induction k arbitrary: self w c r)
  case 0
  then show ?case by auto
next
  case (Suc k)
  from Suc.prems(1) have "\<exists>e. outcome (c + 1 + 0) = Some e \<and> valid e" by blast
  then obtain e where e: "outcome (Suc c) = Some e" "valid e" by auto
  have r0: "r \<noteq> 0" using Suc.prems(4) by auto
  let ?w1 = "emit (Invoked ''_try'') w"
  obtain self1 w1 where
    step: "retry_except valid e (self, ?w1) = (Inr (), (self1, w1))"
    and inv1: "invocations ''_try'' w1 = invocations ''_try'' ?w1"
    and r1: "map_of (options self1) ''retries'' = Some (PInt (r - 1))"
    and i1: "map_of (options self1) ''retry_interval'' = Some v"
    and s1: "slept w1 = slept ?w1"
    using retry_except_continue_falsy [where valid = valid and e = e and w = "?w1"
        and h = "''_try''", OF Suc.prems(3) r0 e(2) Suc.prems(5) Suc.prems(6)]
    by blast
  have c1: "invocations ''_try'' w1 = c + 1"
    using inv1 Suc.prems(2) by (simp add: invocations_emit)
  have unfold: "retry (scripted_try outcome) valid (self, w)
      = retry (scripted_try outcome) valid (self1, w1)"
    by (subst retry.simps)
       (simp add: scripted_try_def invocations_emit Suc.prems(2) e step)
  have out: "\<forall>j<k. \<exists>e. outcome (c + 1 + 1 + j) = Some e \<and> valid e"
  proof (intro allI impI)
    fix j assume "j < k"
    then have "Suc j < Suc k" by simp
    with Suc.prems(1) have "\<exists>e. outcome (c + 1 + Suc j) = Some e \<and> valid e" by blast
    then show "\<exists>e. outcome (c + 1 + 1 + j) = Some e \<and> valid e" by simp
  qed
  have rk: "int k \<le> r - 1" using Suc.prems(4) by simp
  from Suc.IH [OF out c1 r1 rk i1 Suc.prems(6)]
  obtain self' w' where
    run: "retry (scripted_try outcome) valid (self1, w1) = retry (scripted_try outcome) valid (self', w')"
    and inv': "invocations ''_try'' w' = c + 1 + k"
    and r': "map_of (options self') ''retries'' = Some (PInt (r - 1 - int k))"
    and i': "map_of (options self') ''retry_interval'' = Some v"
    and s': "slept w' = slept w1"
    by blast
  show ?case
    using unfold run inv' r' i' s' s1
    by (intro exI [of _ self'] exI [of _ w']) (simp add: algebra_simps slept_emit)
qed

lemma retry_ends:
  assumes inv: "invocations ''_try'' w = k"
    and r: "map_of (options self) ''retries'' = Some (PInt (int N - int k))"
    and fin: "outcome (k + 1) = None \<or> k = N"
  shows "\<exists>x. retry (scripted_try outcome) valid (self, w)
      = Some (x, (self, emit (Invoked ''_try'') w))"
proof (cases "outcome (k + 1)")
  case None
  then show ?thesis using retry_returns [of outcome w valid self] inv by simp
next
  case (Some e)
  with fin have "k = N" by simp
  with r have "map_of (options self) ''retries'' = Some (PInt 0)" by simp
  then show ?thesis using retry_raises [of outcome w e self valid] inv Some by simp
qed

text \<open>
  C7. The step fails \<open>k\<close> times (\<open>k \<le> N\<close>, each error accepted) and then returns, or
  the retries run out. With integer options \<^verbatim>\<open>retry_interval\<close> = \<open>I\<close> and
  \<^verbatim>\<open>retry_interval_add\<close> = \<open>A\<close> such that each of \<open>I\<close>, \<open>I + A\<close>, ...,
  \<open>I + (k - 1) A\<close> is positive (so for all \<open>I > 0\<close> and \<open>A \<ge> 0\<close>), the sleeps
  before the \<open>k\<close> retries are exactly \<open>I\<close>, \<open>I + A\<close>, ..., \<open>I + (k - 1) A\<close> in this
  order, and the interval ends as \<open>I + k A\<close>: it is incremented by \<open>A\<close> after each sleep.
  With a falsy \<^verbatim>\<open>retry_interval\<close> the loop sleeps not at all and leaves the interval as
  it was.
\<close>

theorem retry_backoff:
  assumes r: "map_of (options self) ''retries'' = Some (PInt (int N))"
    and c: "invocations ''_try'' w = 0"
    and k: "k \<le> N"
    and fail: "\<forall>n. 1 \<le> n \<and> n \<le> k \<longrightarrow> (\<exists>e. outcome n = Some e \<and> valid e)"
    and fin: "outcome (k + 1) = None \<or> k = N"
  shows
    "(map_of (options self) ''retry_interval'' = Some (PInt I)
        \<and> map_of (options self) ''retry_interval_add'' = Some (PInt A)
        \<and> (\<forall>j<k. 0 < I + int j * A)
      \<longrightarrow> run_slept (retry (scripted_try outcome) valid (self, w))
            = Some (slept w @ map (\<lambda>j. PInt (I + int j * A)) [0..<k])
        \<and> run_option ''retry_interval'' (retry (scripted_try outcome) valid (self, w))
            = Some (Some (PInt (I + int k * A))))
     \<and> (map_of (options self) ''retry_interval'' = Some v \<and> \<not> truthy v
      \<longrightarrow> run_slept (retry (scripted_try outcome) valid (self, w)) = Some (slept w)
        \<and> run_option ''retry_interval'' (retry (scripted_try outcome) valid (self, w))
            = Some (Some v))"
proof (intro conjI impI)
  assume h: "map_of (options self) ''retry_interval'' = Some (PInt I)
        \<and> map_of (options self) ''retry_interval_add'' = Some (PInt A)
        \<and> (\<forall>j<k. 0 < I + int j * A)"
  then have i: "map_of (options self) ''retry_interval'' = Some (PInt I)"
    and a: "map_of (options self) ''retry_interval_add'' = Some (PInt A)"
    and pos: "I = 0 \<or> (\<forall>j<k. 0 < I + int j * A)" by simp_all
  have I0: "I = 0 \<Longrightarrow> k = 0" using h by (cases k) auto
  from retry_after_failures [OF fail c r k i a pos]
  obtain self' w' where
    run: "retry (scripted_try outcome) valid (self, w)
        = retry (scripted_try outcome) valid (self', w')"
    and inv: "invocations ''_try'' w' = k"
    and ret: "map_of (options self') ''retries'' = Some (PInt (int N - int k))"
    and iv: "map_of (options self') ''retry_interval'' = Some (PInt (if I = 0 then 0 else I + int k * A))"
    and sl: "slept w' = slept w @ (if I = 0 then [] else map (\<lambda>j. PInt (I + int j * A)) [0..<k])"
    by blast
  from retry_ends [where outcome = outcome and valid = valid, OF inv ret fin] obtain x where
    "retry (scripted_try outcome) valid (self', w') = Some (x, (self', emit (Invoked ''_try'') w'))"
    by blast
  with run iv sl I0
  show "run_slept (retry (scripted_try outcome) valid (self, w))
            = Some (slept w @ map (\<lambda>j. PInt (I + int j * A)) [0..<k])"
    and "run_option ''retry_interval'' (retry (scripted_try outcome) valid (self, w))
            = Some (Some (PInt (I + int k * A)))"
    by (auto simp: run_slept_def run_option_def slept_emit)
next
  assume h: "map_of (options self) ''retry_interval'' = Some v \<and> \<not> truthy v"
  have f: "\<forall>j<k. \<exists>e. outcome (0 + 1 + j) = Some e \<and> valid e"
    using fail by simp
  have le: "int k \<le> int N" using k by simp
  from retry_failures_falsy [OF f c r le] h
  obtain self' w' where
    run: "retry (scripted_try outcome) valid (self, w)
        = retry (scripted_try outcome) valid (self', w')"
    and inv: "invocations ''_try'' w' = 0 + k"
    and ret: "map_of (options self') ''retries'' = Some (PInt (int N - int k))"
    and iv: "map_of (options self') ''retry_interval'' = Some v"
    and sl: "slept w' = slept w"
    by blast
  from inv have inv': "invocations ''_try'' w' = k" by simp
  from retry_ends [where outcome = outcome and valid = valid, OF inv' ret fin] obtain x where
    "retry (scripted_try outcome) valid (self', w') = Some (x, (self', emit (Invoked ''_try'') w'))"
    by blast
  with run iv sl
  show "run_slept (retry (scripted_try outcome) valid (self, w)) = Some (slept w)"
    and "run_option ''retry_interval'' (retry (scripted_try outcome) valid (self, w))
            = Some (Some v)"
    by (auto simp: run_slept_def run_option_def slept_emit)
qed

theorem retry_backoff_witness:
  "run_slept (retry (scripted_try (always_fails (OtherError ''boom''))) default_is_retry_valid
       (example_task [(''retries'', PInt 3), (''retry_interval'', PInt 5),
                      (''retry_interval_add'', PInt 30)], example_world))
     = Some [PInt 5, PInt 35, PInt 65]
   \<and> run_option ''retry_interval''
       (retry (scripted_try (always_fails (OtherError ''boom''))) default_is_retry_valid
       (example_task [(''retries'', PInt 3), (''retry_interval'', PInt 5),
                      (''retry_interval_add'', PInt 30)], example_world))
     = Some (Some (PInt 95))
   \<and> run_slept (retry (scripted_try (fails_first 2 (OtherError ''boom''))) default_is_retry_valid
       (example_task [(''retries'', PInt 3), (''retry_interval'', PNone)], example_world))
     = Some []"
proof (intro conjI)
  have "upt 0 3 = [0, 1, 2]" by (simp add: upt_rec)
  then show "run_slept (retry (scripted_try (always_fails (OtherError ''boom''))) default_is_retry_valid
       (example_task [(''retries'', PInt 3), (''retry_interval'', PInt 5),
                      (''retry_interval_add'', PInt 30)], example_world))
     = Some [PInt 5, PInt 35, PInt 65]"
   and "run_option ''retry_interval''
       (retry (scripted_try (always_fails (OtherError ''boom''))) default_is_retry_valid
       (example_task [(''retries'', PInt 3), (''retry_interval'', PInt 5),
                      (''retry_interval_add'', PInt 30)], example_world))
     = Some (Some (PInt 95))"
    using retry_backoff
    [where self = "example_task [(''retries'', PInt 3), (''retry_interval'', PInt 5),
                      (''retry_interval_add'', PInt 30)]"
       and N = 3 and I = 5 and A = 30 and w = example_world
       and outcome = "always_fails (OtherError ''boom'')"
       and valid = default_is_retry_valid and k = 3]
    by (simp_all add: example_task_def example_world_def always_fails_def
        default_is_retry_valid_def invocations_def slept_def)
  show "run_slept (retry (scripted_try (fails_first 2 (OtherError ''boom''))) default_is_retry_valid
       (example_task [(''retries'', PInt 3), (''retry_interval'', PNone)], example_world))
     = Some []"
    using retry_backoff
    [where self = "example_task [(''retries'', PInt 3), (''retry_interval'', PNone)]"
       and N = 3 and v = PNone and w = example_world
       and outcome = "fails_first 2 (OtherError ''boom'')"
       and valid = default_is_retry_valid and k = 2]
    by (simp add: example_task_def example_world_def fails_first_def
        default_is_retry_valid_def invocations_def slept_def)
qed

text \<open>
  The interval is tested for truthiness before every sleep. With \<open>I = 1\<close> and
  \<open>A = -1\<close> (both truthy) the interval is 0 after the first sleep, so the second retry
  happens without a sleep: the loop sleeps \<open>[1]\<close>, not \<open>[1, 0]\<close>.
\<close>

theorem retry_backoff_counterexample:
  "run_slept (retry (scripted_try (always_fails (OtherError ''boom''))) default_is_retry_valid
       (example_task [(''retries'', PInt 2), (''retry_interval'', PInt 1),
                      (''retry_interval_add'', PInt (- 1))], example_world)) = Some [PInt 1]
   \<and> run_invocations ''_try''
       (retry (scripted_try (always_fails (OtherError ''boom''))) default_is_retry_valid
       (example_task [(''retries'', PInt 2), (''retry_interval'', PInt 1),
                      (''retry_interval_add'', PInt (- 1))], example_world)) = Some 3
   \<and> run_slept (retry (scripted_try (always_fails (OtherError ''boom''))) default_is_retry_valid
       (example_task [(''retries'', PInt 2), (''retry_interval'', PInt 1),
                      (''retry_interval_add'', PInt (- 1))], example_world))
       \<noteq> Some [PInt 1, PInt 0]"
  by (simp add: retry.simps scripted_try_def always_fails_def default_is_retry_valid_def
        example_task_def example_world_def retry_except_def retry_sleep_def retry_decrement_def
        dict_item_def dict_set_def time_sleep_def py_sub_def emit_def invocations_def
        slept_def run_slept_def run_invocations_def Let_def)

subsection \<open>The poll loop\<close>

lemma poll_iteration_last:
  assumes "invocations ''_poll_action'' w = n" "Suc n = M"
  shows "poll (probe_completing_at M) (self, w)
     = Some (Inr (), (self\<lparr>poll_count := poll_count self + 1, poll_complete := True\<rparr>,
                      emit (Invoked ''_poll_action'') w))"
  using assms
  by (subst poll.simps) (simp add: probe_completing_at_def invocations_emit)

lemma poll_iteration_next:
  assumes "invocations ''_poll_action'' w = n" "Suc n \<noteq> M"
    and "\<not> poll_complete self" "0 \<le> poll_interval_s self"
  shows "poll (probe_completing_at M) (self, w)
     = poll (probe_completing_at M)
         (poll_update_interval
            (self\<lparr>poll_count := poll_count self + 1\<rparr>,
             emit (Slept (PInt (poll_interval_s self))) (emit (Invoked ''_poll_action'') w)))"
  using assms
  by (subst poll.simps) (simp add: probe_completing_at_def invocations_emit time_sleep_def)

lemma poll_progress:
  assumes "poll_count self = int n" "poll_interval_level self = int (n div 3)"
    and "poll_interval_s self = 1 + int (n div 3)"
    and "invocations ''_poll_action'' w = n" "\<not> poll_complete self" "n < M"
  shows "\<exists>self' w'. poll (probe_completing_at M) (self, w) = Some (Inr (), (self', w'))
      \<and> invocations ''_poll_action'' w' = M
      \<and> poll_count self' = int M
      \<and> poll_complete self'
      \<and> slept w' = slept w @ map (\<lambda>j. PInt ((int j + 2) div 3)) [Suc n..<M]"
  using assms
proof (induction "M - n" arbitrary: n self w)
  case 0
  then show ?case by simp
next
  case (Suc d)
  show ?case
  proof (cases "Suc n = M")
    case True
    show ?thesis
      using poll_iteration_last [OF Suc.prems(4) True, of self] True Suc.prems(1) Suc.prems(4)
      by (simp add: invocations_emit slept_emit)
  next
    case False
    define self1 where "self1 = fst (poll_update_interval
            (self\<lparr>poll_count := poll_count self + 1\<rparr>,
             emit (Slept (PInt (poll_interval_s self))) (emit (Invoked ''_poll_action'') w)))"
    define w1 where "w1 = snd (poll_update_interval
            (self\<lparr>poll_count := poll_count self + 1\<rparr>,
             emit (Slept (PInt (poll_interval_s self))) (emit (Invoked ''_poll_action'') w)))"
    have nonneg: "0 \<le> poll_interval_s self" using Suc.prems(3) by simp
    have run: "poll (probe_completing_at M) (self, w) = poll (probe_completing_at M) (self1, w1)"
      using poll_iteration_next [OF Suc.prems(4) False Suc.prems(5) nonneg]
      by (simp add: self1_def w1_def)
    have dv: "Suc n div 3 = n div 3 \<or> Suc n div 3 = Suc (n div 3)" by presburger
    have pc: "poll_count self1 = int (Suc n)"
      using Suc.prems(1) by (simp add: self1_def poll_update_interval_def Let_def)
    have lv: "poll_interval_level self1 = int (Suc n div 3)"
      using Suc.prems(1,2) dv
      by (auto simp: self1_def poll_update_interval_def Let_def zdiv_int [symmetric]
            simp del: of_nat_Suc)
    have iv: "poll_interval_s self1 = 1 + int (Suc n div 3)"
      using Suc.prems(1,2,3) dv
      by (auto simp: self1_def poll_update_interval_def Let_def zdiv_int [symmetric]
            simp del: of_nat_Suc)
    have inv: "invocations ''_poll_action'' w1 = Suc n"
      using Suc.prems(4)
      by (simp add: w1_def poll_update_interval_def Let_def invocations_emit)
    have nc: "\<not> poll_complete self1"
      using Suc.prems(5) by (simp add: self1_def poll_update_interval_def Let_def)
    have sl: "slept w1 = slept w @ [PInt (1 + int (n div 3))]"
      using Suc.prems(3) by (simp add: w1_def poll_update_interval_def Let_def slept_emit)
    have lt: "Suc n < M" using Suc.prems(6) False by simp
    have d: "d = M - Suc n" using Suc.hyps(2) by simp
    from Suc.hyps(1) [OF d pc lv iv inv nc lt]
    obtain self' w' where
      fin: "poll (probe_completing_at M) (self1, w1) = Some (Inr (), (self', w'))"
      and i': "invocations ''_poll_action'' w' = M"
      and c': "poll_count self' = int M"
      and p': "poll_complete self'"
      and s': "slept w' = slept w1 @ map (\<lambda>j. PInt ((int j + 2) div 3)) [Suc (Suc n)..<M]"
      by blast
    have ce: "(int (Suc n) + 2) div 3 = 1 + int (n div 3)"
      by (simp add: zdiv_int)
    have "map (\<lambda>j. PInt ((int j + 2) div 3)) [Suc n..<M]
        = PInt (1 + int (n div 3)) # map (\<lambda>j. PInt ((int j + 2) div 3)) [Suc (Suc n)..<M]"
      using lt ce by (simp add: upt_conv_Cons del: of_nat_Suc)
    with run fin i' c' p' s' sl show ?thesis by simp
  qed
qed


lemma poll_update_interval_complete:
  "poll_complete (fst (poll_update_interval s)) = poll_complete (fst s)"
  by (cases s) (simp add: poll_update_interval_def Let_def)

lemma poll_update_interval_nonneg:
  "0 \<le> poll_interval_s (fst s) \<Longrightarrow> 0 \<le> poll_interval_s (fst (poll_update_interval s))"
  by (cases s) (simp add: poll_update_interval_def Let_def)

lemma poll_never_returns:
  assumes "poll f s = Some r"
  shows "\<not> (f = probe_completing_at 0 \<and> \<not> poll_complete (fst s) \<and> 0 \<le> poll_interval_s (fst s))"
proof (rule poll.raw_induct
    [where P = "\<lambda>f s r. \<not> (f = probe_completing_at 0 \<and> \<not> poll_complete (fst s)
        \<and> 0 \<le> poll_interval_s (fst s))", OF _ assms], goal_cases)
  case (1 poll' f s r)
  show ?case
  proof
    assume inv: "f = probe_completing_at 0 \<and> \<not> poll_complete (fst s) \<and> 0 \<le> poll_interval_s (fst s)"
    let ?s' = "poll_update_interval
            ((fst s)\<lparr>poll_count := poll_count (fst s) + 1\<rparr>,
             emit (Slept (PInt (poll_interval_s (fst s)))) (emit (Invoked ''_poll_action'') (snd s)))"
    from inv 1(2) have step: "poll' f ?s' = Some r"
      by (simp add: probe_completing_at_def invocations_emit time_sleep_def)
    have "\<not> (f = probe_completing_at 0 \<and> \<not> poll_complete (fst ?s')
        \<and> 0 \<le> poll_interval_s (fst ?s'))"
      by (rule 1(1) [OF step])
    moreover have "\<not> poll_complete (fst ?s')"
      using inv by (simp add: poll_update_interval_complete)
    moreover have "0 \<le> poll_interval_s (fst ?s')"
      using inv by (intro poll_update_interval_nonneg) simp
    ultimately show False using inv by simp
  qed
qed

text \<open>
  C2. The task's poll state is as \<^verbatim>\<open>_reset_poll\<close> leaves it and the probe has not been
  invoked yet. For a probe that sets \<^verbatim>\<open>poll_complete\<close> on its \<open>M\<close>-th invocation only
  (\<open>M \<ge> 1\<close>), \<^verbatim>\<open>_poll\<close> returns after exactly \<open>M\<close> invocations of the probe, with
  \<^verbatim>\<open>poll_count\<close> = \<open>M\<close>, and the sleep after poll number \<open>n\<close>, for \<open>n\<close> from 1 to
  \<open>M - 1\<close> in this order, is \<open>(n + 2) div 3\<close> seconds, that is \<open>n / 3\<close> rounded up:
  1, 1, 1, 2, 2, 2, 3, ... There is no cap on \<open>M\<close>; and for the probe that never sets the
  flag (\<open>M = 0\<close>: no invocation is the 0-th) the loop never returns.
\<close>

theorem poll_until_complete:
  assumes "invocations ''_poll_action'' w = 0"
  shows "(1 \<le> M \<longrightarrow>
        run_result (poll (probe_completing_at M) (reset_poll t, w)) = Some (Inr ())
      \<and> run_invocations ''_poll_action'' (poll (probe_completing_at M) (reset_poll t, w)) = Some M
      \<and> run_slept (poll (probe_completing_at M) (reset_poll t, w))
          = Some (slept w @ map (\<lambda>n. PInt ((int n + 2) div 3)) [1..<M])
      \<and> map_option poll_count (run_self (poll (probe_completing_at M) (reset_poll t, w)))
          = Some (int M))
     \<and> poll (probe_completing_at 0) (reset_poll t, w) = None"
proof (intro conjI impI)
  assume M: "1 \<le> M"
  have "\<exists>self' w'. poll (probe_completing_at M) (reset_poll t, w) = Some (Inr (), (self', w'))
      \<and> invocations ''_poll_action'' w' = M
      \<and> poll_count self' = int M
      \<and> poll_complete self'
      \<and> slept w' = slept w @ map (\<lambda>j. PInt ((int j + 2) div 3)) [Suc 0..<M]"
    using assms M by (intro poll_progress) (simp_all add: reset_poll_def)
  then obtain self' w' where
    "poll (probe_completing_at M) (reset_poll t, w) = Some (Inr (), (self', w'))"
    "invocations ''_poll_action'' w' = M" "poll_count self' = int M"
    "slept w' = slept w @ map (\<lambda>j. PInt ((int j + 2) div 3)) [1..<M]"
    by auto
  then show "run_result (poll (probe_completing_at M) (reset_poll t, w)) = Some (Inr ())"
    and "run_invocations ''_poll_action'' (poll (probe_completing_at M) (reset_poll t, w)) = Some M"
    and "run_slept (poll (probe_completing_at M) (reset_poll t, w))
          = Some (slept w @ map (\<lambda>n. PInt ((int n + 2) div 3)) [1..<M])"
    and "map_option poll_count (run_self (poll (probe_completing_at M) (reset_poll t, w)))
          = Some (int M)"
    by (simp_all add: run_result_def run_invocations_def run_slept_def run_self_def)
next
  show "poll (probe_completing_at 0) (reset_poll t, w) = None"
  proof (cases "poll (probe_completing_at 0) (reset_poll t, w)")
    case None then show ?thesis .
  next
    case (Some r)
    from poll_never_returns [OF Some] show ?thesis by (simp add: reset_poll_def)
  qed
qed

theorem poll_until_complete_witness:
  "run_result (poll (probe_completing_at 8) (reset_poll (example_task []), example_world))
     = Some (Inr ())
   \<and> run_invocations ''_poll_action''
       (poll (probe_completing_at 8) (reset_poll (example_task []), example_world)) = Some 8
   \<and> run_slept (poll (probe_completing_at 8) (reset_poll (example_task []), example_world))
       = Some [PInt 1, PInt 1, PInt 1, PInt 2, PInt 2, PInt 2, PInt 3]"
proof -
  have "upt 1 8 = [1, 2, 3, 4, 5, 6, 7]" by (simp add: upt_rec)
  then show ?thesis
    using poll_until_complete [of example_world 8 "example_task []"]
    by (simp add: example_world_def invocations_def slept_def)
qed

subsection \<open>Invocation\<close>

text \<open>
  C5. For a task variant with \<^verbatim>\<open>salesforce_task\<close> set, invoked with no org configuration,
  \<^verbatim>\<open>__call__\<close> raises \<^verbatim>\<open>TaskRequiresSalesforceOrg\<close> and leaves the task and the world
  exactly as they were, whatever the hooks are: no hook has been invoked (no credential
  refresh, no \<^verbatim>\<open>_init_task\<close>, no task body), nothing has been pushed on the task stack, the
  working directory has not changed, nothing has been logged, and \<^verbatim>\<open>result\<close> and
  \<^verbatim>\<open>return_values\<close> are untouched.
\<close>

theorem call_requires_org:
  assumes "salesforce_task (cls self)" and "org_config self = None"
  shows "call capture update_credentials init_task run_task_hook (self, w)
     = (Inl (TaskRequiresSalesforceOrg
              ''This task requires a salesforce org. Use org default <name> to set a default org or pass the org name with the --org option''),
        (self, w))"
  using assms by (simp add: call_def)

theorem call_requires_org_witness:
  "call True default_update_credentials default_init_task default_run_task
      ((example_task [])\<lparr>cls := \<lparr>cls_name = ''Deploy'', task_options = [],
                                  salesforce_task = True\<rparr>\<rparr>, example_world)
     = (Inl (TaskRequiresSalesforceOrg
              ''This task requires a salesforce org. Use org default <name> to set a default org or pass the org name with the --org option''),
        ((example_task [])\<lparr>cls := \<lparr>cls_name = ''Deploy'', task_options = [],
                                  salesforce_task = True\<rparr>\<rparr>, example_world))"
  using call_requires_org
    [of "(example_task [])\<lparr>cls := \<lparr>cls_name = ''Deploy'', task_options = [],
                                  salesforce_task = True\<rparr>\<rparr>"
        True default_update_credentials default_init_task default_run_task example_world]
  by (simp add: example_task_def)
















subsection \<open>Freezing\<close>

lemma map_of_update_items:
  "map_of (update_items r d) = map_of r ++ map_of (map (\<lambda>(k, v). (KStr k, v)) (rev d))"
proof (induction d arbitrary: r)
  case Nil
  show ?case by simp
next
  case (Cons p d)
  obtain k v where p: "p = (k, v)" by (cases p)
  show ?case
    by (rule ext) (simp add: p Cons.IH update_conv' map_add_def split: option.splits)
qed

lemma map_of_rev_distinct: "distinct (map fst d) \<Longrightarrow> map_of (rev d) = map_of d"
  using map_of_inject_set [of "rev d" d] by (simp add: rev_map [symmetric])

lemma map_of_KStr_items:
  "map_of (map (\<lambda>(k, v). (KStr k, v)) d) (KStr s) = map_of d s"
  "map_of (map (\<lambda>(k, v). (KStr k, v)) d) (KInt i) = None"
  "map_of (map (\<lambda>(k, v). (KStr k, v)) d) KNone = None"
  by (induction d) auto

text \<open>
  C8. For every step descriptor and every task whose configuration has no
  \<^verbatim>\<open>ui_options\<close> or a mapping \<open>d\<close> there, \<^verbatim>\<open>freeze\<close> returns a sequence of exactly
  one record. The record holds the defaults \<^verbatim>\<open>name\<close> (the task-config name when that
  is truthy, the task's own name otherwise), \<^verbatim>\<open>kind\<close> = \<^verbatim>\<open>other\<close> and
  \<^verbatim>\<open>is_required\<close> = \<open>True\<close>, overridden and extended by the entries of \<open>d\<close> (the
  name like the other two), overridden in turn by \<^verbatim>\<open>path\<close>, \<^verbatim>\<open>step_num\<close> (the step
  number as a string), \<^verbatim>\<open>task_class\<close>, \<^verbatim>\<open>task_config\<close> (the block of the resolved
  options and of the declared checks, or an empty sequence) and \<^verbatim>\<open>source\<close>, which no
  entry of \<open>d\<close> can change. The record has no other key.
\<close>

theorem freeze_record:
  assumes "ui_options self = PDict d" and "distinct (map fst d)"
  shows "\<exists>r. freeze self step = Inr [r]
     \<and> (\<forall>key. map_of r key =
          (case key of
             KStr k \<Rightarrow>
               (map_of [(''name'', if truthy (tc_name (task_config self))
                                   then tc_name (task_config self) else name self),
                        (''kind'', PStr ''other''),
                        (''is_required'', PBool True)]
                ++ map_of d
                ++ map_of [(''path'', step_path step),
                           (''step_num'', PStr (step_num_str step)),
                           (''task_class'', tc_class_path (task_config self)),
                           (''task_config'',
                              PDict [(''options'', PDict (options self)),
                                     (''checks'', if truthy (tc_checks (task_config self))
                                                  then tc_checks (task_config self)
                                                  else PList [])]),
                           (''source'', step_source_frozenspec step)]) k
           | _ \<Rightarrow> None))"
proof -
  let ?defaults = "[(''name'', if truthy (tc_name (task_config self))
                               then tc_name (task_config self) else name self),
                    (''kind'', PStr ''other''),
                    (''is_required'', PBool True)]"
  let ?fixed = "[(''path'', step_path step),
                 (''step_num'', PStr (step_num_str step)),
                 (''task_class'', tc_class_path (task_config self)),
                 (''task_config'',
                    PDict [(''options'', PDict (options self)),
                           (''checks'', if truthy (tc_checks (task_config self))
                                        then tc_checks (task_config self) else PList [])]),
                 (''source'', step_source_frozenspec step)]"
  let ?ui_step = "map (\<lambda>(k, v). (KStr k, v)) ?defaults"
  let ?r = "update_items (update_items ?ui_step d) ?fixed"
  have fr: "freeze self step = Inr [?r]"
    using assms(1) by (simp add: freeze_def Let_def)
  have "distinct (map fst ?fixed)" by simp
  then have fx: "map_of (rev ?fixed) = map_of ?fixed" by (rule map_of_rev_distinct)
  have dd: "map_of (rev d) = map_of d" by (rule map_of_rev_distinct [OF assms(2)])
  have "map_of ?r key =
      (case key of KStr k \<Rightarrow> (map_of ?defaults ++ map_of d ++ map_of ?fixed) k | _ \<Rightarrow> None)"
    for key
  proof (cases key)
    case (KStr k)
    have "map_of ?r key =
        (map_of ?ui_step ++ map_of (map (\<lambda>(k, v). (KStr k, v)) (rev d))
           ++ map_of (map (\<lambda>(k, v). (KStr k, v)) (rev ?fixed))) key"
      by (simp only: map_of_update_items)
    also have "\<dots> = (map_of ?defaults ++ map_of (rev d) ++ map_of (rev ?fixed)) k"
      by (simp only: KStr map_add_def map_of_KStr_items)
    finally show ?thesis by (simp only: KStr fx dd key.case)
  next
    case (KInt i)
    have "map_of ?r key =
        (map_of ?ui_step ++ map_of (map (\<lambda>(k, v). (KStr k, v)) (rev d))
           ++ map_of (map (\<lambda>(k, v). (KStr k, v)) (rev ?fixed))) key"
      by (simp only: map_of_update_items)
    also have "\<dots> = None"
      by (simp only: KInt map_add_def map_of_KStr_items option.case)
    finally show ?thesis by (simp add: KInt)
  next
    case KNone
    have "map_of ?r key =
        (map_of ?ui_step ++ map_of (map (\<lambda>(k, v). (KStr k, v)) (rev d))
           ++ map_of (map (\<lambda>(k, v). (KStr k, v)) (rev ?fixed))) key"
      by (simp only: map_of_update_items)
    also have "\<dots> = None"
      by (simp only: KNone map_add_def map_of_KStr_items option.case)
    finally show ?thesis by (simp add: KNone)
  qed
  with fr show ?thesis by blast
qed

theorem freeze_record_witness:
  "\<exists>r. freeze (example_frozen_task [(''kind'', PStr ''metadata'')]) example_step = Inr [r]
     \<and> map_of r (KStr ''name'') = Some (PStr ''deploy'')
     \<and> map_of r (KStr ''kind'') = Some (PStr ''metadata'')
     \<and> map_of r (KStr ''is_required'') = Some (PBool True)
     \<and> map_of r (KStr ''path'') = Some (PStr ''force_deploy'')
     \<and> map_of r (KStr ''step_num'') = Some (PStr ''1'')
     \<and> map_of r (KStr ''task_config'') =
          Some (PDict [(''options'', PDict [(''tag'', PStr ''release/1.0'')]),
                       (''checks'', PList [])])
     \<and> map_of r KNone = None"
proof -
  have u: "ui_options (example_frozen_task [(''kind'', PStr ''metadata'')])
      = PDict [(''kind'', PStr ''metadata'')]"
    by (simp add: ui_options_def example_frozen_task_def example_task_def)
  have d: "distinct (map fst [(''kind'', PStr ''metadata'')])" by simp
  from freeze_record [OF u d, of example_step]
  obtain r where
    f: "freeze (example_frozen_task [(''kind'', PStr ''metadata'')]) example_step = Inr [r]"
    and m: "\<forall>key. map_of r key =
          (case key of
             KStr k \<Rightarrow>
               (map_of [(''name'', if truthy (tc_name (task_config (example_frozen_task [(''kind'', PStr ''metadata'')])))
                                   then tc_name (task_config (example_frozen_task [(''kind'', PStr ''metadata'')]))
                                   else name (example_frozen_task [(''kind'', PStr ''metadata'')])),
                        (''kind'', PStr ''other''),
                        (''is_required'', PBool True)]
                ++ map_of [(''kind'', PStr ''metadata'')]
                ++ map_of [(''path'', step_path example_step),
                           (''step_num'', PStr (step_num_str example_step)),
                           (''task_class'', tc_class_path (task_config (example_frozen_task [(''kind'', PStr ''metadata'')]))),
                           (''task_config'',
                              PDict [(''options'', PDict (options (example_frozen_task [(''kind'', PStr ''metadata'')]))),
                                     (''checks'', if truthy (tc_checks (task_config (example_frozen_task [(''kind'', PStr ''metadata'')])))
                                                  then tc_checks (task_config (example_frozen_task [(''kind'', PStr ''metadata'')]))
                                                  else PList [])]),
                           (''source'', step_source_frozenspec example_step)]) k
           | _ \<Rightarrow> None)"
    by blast
  show ?thesis
    by (intro exI [of _ r] conjI f)
       (simp_all add: m example_frozen_task_def example_task_def example_step_def)
qed

text \<open>
  A \<^verbatim>\<open>name\<close> in \<^verbatim>\<open>ui_options\<close> replaces the default name: the record of a task
  configured under the name \<^verbatim>\<open>deploy\<close> is named as its \<^verbatim>\<open>ui_options\<close> say.
\<close>

theorem freeze_name_counterexample:
  "freeze (example_frozen_task [(''name'', PStr ''Install Package'')]) example_step
     = Inr [[(KStr ''name'', PStr ''Install Package''),
             (KStr ''kind'', PStr ''other''),
             (KStr ''is_required'', PBool True),
             (KStr ''path'', PStr ''force_deploy''),
             (KStr ''step_num'', PStr ''1''),
             (KStr ''task_class'', PStr ''cumulusci.tasks.salesforce.Deploy''),
             (KStr ''task_config'', PDict [(''options'', PDict [(''tag'', PStr ''release/1.0'')]),
                                           (''checks'', PList [])]),
             (KStr ''source'', PDict [(''github'', PStr ''https://github.com/org/repo'')])]]
   \<and> tc_name (task_config (example_frozen_task [(''name'', PStr ''Install Package'')]))
       = PStr ''deploy''"
  by (simp add: freeze_def ui_options_def example_frozen_task_def example_task_def
        example_step_def Let_def)


text \<open>
  When \<^verbatim>\<open>ui_options\<close> is not a mapping, \<^verbatim>\<open>dict.update\<close> decides: \<^verbatim>\<open>None\<close> raises
  \<^verbatim>\<open>TypeError\<close>, a non-empty string raises \<^verbatim>\<open>ValueError\<close>, an empty list or string
  changes nothing, and a list of pairs is stored pair by pair (\<^verbatim>\<open>True\<close> and 1 being one
  key).
\<close>

lemma freeze_ui_options_not_a_mapping:
  "freeze ((example_task [])\<lparr>task_config := (task_config (example_task []))
              \<lparr>tc_config := [(''ui_options'', PNone)]\<rparr>\<rparr>) example_step = Inl TypeError"
  "freeze ((example_task [])\<lparr>task_config := (task_config (example_task []))
              \<lparr>tc_config := [(''ui_options'', PStr ''ab'')]\<rparr>\<rparr>) example_step = Inl ValueError"
  "freeze ((example_task [])\<lparr>task_config := (task_config (example_task []))
              \<lparr>tc_config := [(''ui_options'', PList [])]\<rparr>\<rparr>) example_step
     = freeze (example_task []) example_step"
  "freeze ((example_task [])\<lparr>task_config := (task_config (example_task []))
              \<lparr>tc_config := [(''ui_options'', PStr [])]\<rparr>\<rparr>) example_step
     = freeze (example_task []) example_step"
  "map_option (\<lambda>r. map_of r (KInt 1))
     (case freeze ((example_task [])\<lparr>task_config := (task_config (example_task []))
              \<lparr>tc_config := [(''ui_options'',
                   PList [PList [PBool True, PInt 3], PList [PInt 1, PInt 4]])]\<rparr>\<rparr>)
           example_step of Inr [r] \<Rightarrow> Some r | _ \<Rightarrow> None)
     = Some (Some (PInt 4))"
  by (simp_all add: freeze_def ui_options_def example_task_def example_step_def Let_def)


subsection \<open>Client identity\<close>

text \<open>
  C9. \<^verbatim>\<open>_get_client_name\<close> returns the \<^verbatim>\<open>client_id\<close> of the service when the lookup of
  \<^verbatim>\<open>connectedapp\<close> succeeds, returns \<^verbatim>\<open>CumulusCI/<version>\<close> when the lookup raises
  \<^verbatim>\<open>ServiceNotValid\<close> or \<^verbatim>\<open>ServiceNotConfigured\<close>, and never raises either of the two.
\<close>

theorem get_client_name_fallback:
  "(get_service ''connectedapp'' = Inr app
      \<longrightarrow> get_client_name version get_service = Inr (client_id app))
   \<and> (get_service ''connectedapp'' = Inl (ServiceNotValid m)
        \<or> get_service ''connectedapp'' = Inl (ServiceNotConfigured m)
      \<longrightarrow> get_client_name version get_service = Inr (PStr (''CumulusCI/'' @ version)))
   \<and> get_client_name version get_service \<noteq> Inl (ServiceNotValid m')
   \<and> get_client_name version get_service \<noteq> Inl (ServiceNotConfigured m')"
  by (auto simp: get_client_name_def split: sum.splits exn.splits)

theorem get_client_name_fallback_witness:
  "get_client_name ''3.78.0'' (\<lambda>n. if n = ''connectedapp'' then Inr \<lparr>client_id = PStr ''my-app''\<rparr>
                                   else Inl (ServiceNotConfigured n)) = Inr (PStr ''my-app'')
   \<and> get_client_name ''3.78.0'' (\<lambda>n. Inl (ServiceNotConfigured n)) = Inr (PStr ''CumulusCI/3.78.0'')
   \<and> get_client_name ''3.78.0'' (\<lambda>n. Inl (ServiceNotValid n)) = Inr (PStr ''CumulusCI/3.78.0'')"
  using get_client_name_fallback
      [of "\<lambda>n. if n = ''connectedapp'' then Inr \<lparr>client_id = PStr ''my-app''\<rparr>
                else Inl (ServiceNotConfigured n)" "\<lparr>client_id = PStr ''my-app''\<rparr>" "''3.78.0''"]
    get_client_name_fallback
      [of "\<lambda>n. Inl (ServiceNotConfigured n)" _ "''3.78.0''" "''connectedapp''"]
    get_client_name_fallback
      [of "\<lambda>n. Inl (ServiceNotValid n)" _ "''3.78.0''" "''connectedapp''"]
  by simp

subsection \<open>Option templating\<close>

text \<open>
  What holds of the substitution whatever the string is: text without a \<^verbatim>\<open>$\<close> is
  copied; an occurrence of \<^verbatim>\<open>$project_config.\<close> followed by an identifier, reached by
  the scan, is replaced by the string form of the attribute (\<^verbatim>\<open>None\<close> for a missing one);
  and in the options of a task every string value is substituted while every other value is
  left as it is.
\<close>

lemma match_at_other_start: "CHR ''$'' \<noteq> c \<Longrightarrow> match_at (c # cs) = None"
  by (auto simp: match_at_def)

lemma re_sub_plain_prefix:
  "CHR ''$'' \<notin> set pre \<Longrightarrow> re_sub repl (pre @ s) = pre @ re_sub repl s"
  by (induction pre) (simp_all add: match_at_other_start)

lemma match_at_occurrence:
  assumes "attr \<noteq> []" and "\<forall>c \<in> set attr. is_word_char c"
    and "post = [] \<or> \<not> is_word_char (hd post)"
  shows "match_at (''$project_config.'' @ attr @ post) = Some (attr, post)"
proof -
  have t: "takeWhile is_word_char (attr @ post) = attr"
    using assms(2,3) by (cases post) simp_all
  have d: "dropWhile is_word_char (attr @ post) = post"
    using assms(2,3) by (cases post) simp_all
  show ?thesis
    using assms(1) by (simp add: match_at_def t d)
qed

lemma re_sub_occurrence:
  assumes "attr \<noteq> []" and "\<forall>c \<in> set attr. is_word_char c"
    and "post = [] \<or> \<not> is_word_char (hd post)"
  shows "re_sub repl (''$project_config.'' @ attr @ post) = repl attr @ re_sub repl post"
proof -
  have "re_sub repl (CHR ''$'' # ''project_config.'' @ attr @ post)
      = (case match_at (CHR ''$'' # ''project_config.'' @ attr @ post) of
           Some (g, r) \<Rightarrow> repl g @ re_sub repl r
         | None \<Rightarrow> CHR ''$'' # re_sub repl (''project_config.'' @ attr @ post))"
    by (rule re_sub.simps)
  then show ?thesis
    using match_at_occurrence [OF assms] by simp
qed

lemma template_loop_map_of:
  assumes "distinct (map fst items)"
  shows "map_of (template_loop pc items opts) k =
     (case map_of items k of
        Some (PStr s) \<Rightarrow> Some (PStr (re_sub (project_config_repl pc) s))
      | _ \<Rightarrow> map_of opts k)"
  using assms
proof (induction items arbitrary: opts)
  case Nil
  show ?case by simp
next
  case (Cons p items)
  obtain option v where p: "p = (option, v)" by (cases p)
  have d: "distinct (map fst items)" and n: "option \<notin> fst ` set items"
    using Cons.prems by (simp_all add: p)
  have none: "map_of items option = None"
    using n by (simp add: map_of_eq_None_iff)
  have ih: "map_of (template_loop pc items opts') k =
     (case map_of items k of
        Some (PStr s) \<Rightarrow> Some (PStr (re_sub (project_config_repl pc) s))
      | _ \<Rightarrow> map_of opts' k)" for opts'
    by (rule Cons.IH [OF d])
  show ?case
  proof (cases "k = option")
    case True
    note ih' = ih [unfolded True]
    show ?thesis
      unfolding True by (cases v) (simp_all add: p ih' none map_of_dict_set)
  next
    case False
    then show ?thesis
      by (cases v) (simp_all add: p ih map_of_dict_set split: option.splits pyval.splits)
  qed
qed

lemma init_options_map_of:
  assumes "tc_options tc = Some d" and "distinct (map fst d)"
  shows "map_of (init_options pc tc []) k =
     (case map_of d k of
        Some (PStr s) \<Rightarrow> Some (PStr (re_sub (project_config_repl pc) s))
      | other \<Rightarrow> other)"
  using assms
  by (simp add: init_options_def template_loop_map_of split: option.splits pyval.splits)

text \<open>
  C4. \<^verbatim>\<open>_init_options\<close> at three string options and one integer, for a project
  configuration whose attribute \<^verbatim>\<open>foo\<close> has the string form \<^verbatim>\<open>bar\<close> and that has no
  attribute \<^verbatim>\<open>project_config\<close>. The integer passes through, and the occurrence in
  \<^verbatim>\<open>src/$project_config.foo/x\<close> is replaced by \<^verbatim>\<open>bar\<close>. The dot of the pattern
  matches any character, so \<^verbatim>\<open>$project_config_foo\<close> is substituted as well; and in
  \<^verbatim>\<open>$project_config$project_config.foo\<close> the first match takes the \<^verbatim>\<open>$\<close> of the
  occurrence of \<^verbatim>\<open>$project_config.foo\<close> for the dot and \<^verbatim>\<open>project_config\<close> for the
  attribute name: that occurrence is not replaced by \<^verbatim>\<open>bar\<close>, the result is
  \<^verbatim>\<open>None.foo\<close>.
\<close>

theorem init_options_swallowed_occurrence:
  "init_options \<lparr>pc_truthy = True, pc_attr_str = [''foo'' \<mapsto> ''bar''], repo_root = None\<rparr>
      \<lparr>tc_name = PNone, tc_class_path = PNone,
       tc_options = Some [(''path'', PStr ''$project_config$project_config.foo''),
                          (''alias'', PStr ''$project_config_foo''),
                          (''plain'', PStr ''src/$project_config.foo/x''),
                          (''n'', PInt 3)],
       tc_checks = PNone, tc_config = []\<rparr> []
     = [(''path'', PStr ''None.foo''), (''alias'', PStr ''bar''),
        (''plain'', PStr ''src/bar/x''), (''n'', PInt 3)]"
  by code_simp

end
